theory Spec2Isabelle
  imports Complex_Main
begin

section \<open>The stdio to WebSocket bridge: data model\<close>

text \<open>
  A shallow embedding of the class \<open>MCPWebSocketBridge\<close> of \<open>mcp2websocket.js\<close>.
  The bridge object is a record; every method is a function from bridge to bridge.
  What a method does to the outside world (the console, the socket, the line reader,
  the process) is appended to the field \<open>effects\<close>, in the order of the calls.

  JavaScript numbers are modelled as rationals. With the default options every delay
  below the clamp is \<open>1000 * 3^n / 2^n\<close> for \<open>n \<le> 8\<close>, which a double holds exactly.
\<close>

datatype ready_state = CONNECTING | OPEN | CLOSING | CLOSED

datatype level = LInfo | LDebug | LWarn | LError

text \<open>
  The effects. \<open>ConsoleError\<close> is the \<open>console.error\<close> of \<open>log\<close> (level and
  fixed message text; timestamp and arguments are left out), \<open>ConsoleLog m\<close> is the
  \<open>console.log(JSON.stringify(m))\<close> of \<open>sendToStdout\<close>, \<open>WsNew\<close> is
  \<open>new WebSocket(url, {headers})\<close> with the value of the Authorization header, if any,
  \<open>WsSend m\<close> is \<open>ws.send(JSON.stringify(m))\<close>. A message is a value of any type \<open>'m\<close>:
  the bridge never looks into it.
\<close>

datatype 'm effect =
    ConsoleError level string
  | ConsoleLog 'm
  | WsNew string "string option"
  | WsSend 'm
  | WsPing
  | WsCloseCall
  | RlClose
  | ProcessExit nat

record options =
  token :: "string option"
  reconnectInterval :: rat
  maxReconnectInterval :: rat
  reconnectDecay :: rat
  heartbeatInterval :: rat
  debug :: bool

text \<open>
  \<open>ws\<close> is \<open>this.ws\<close>: \<open>None\<close> is \<open>null\<close>, \<open>Some r\<close> a socket whose \<open>readyState\<close> is \<open>r\<close>.
  \<open>heartbeatTimer\<close> and \<open>reconnectTimer\<close> hold \<open>None\<close> for \<open>null\<close>/\<open>undefined\<close> and
  \<open>Some h\<close> for a timer object. The last seven fields are the runtime: the pending
  \<open>setTimeout\<close> timers and the active \<open>setInterval\<close> timers (handle and delay), the
  next fresh handle, the effects so far, the exit status once \<open>process.exit\<close> ran,
  whether the line reader \<open>rl\<close> is closed, and whether \<open>setupStdioHandler\<close> has
  registered the handlers of the line reader and of the signals.
\<close>

record 'm bridge =
  url :: string
  options :: options
  ws :: "ready_state option"
  messageQueue :: "'m list"
  reconnectAttempts :: nat
  isConnected :: bool
  heartbeatTimer :: "nat option"
  reconnectTimer :: "nat option"
  timeouts :: "(nat \<times> rat) list"
  intervals :: "(nat \<times> rat) list"
  next_handle :: nat
  effects :: "'m effect list"
  exited :: "nat option"
  rl_closed :: bool
  stdio_handlers :: bool

subsection \<open>The constructor\<close>

text \<open>The \<open>options\<close> argument of the constructor (every key may be absent) and the
  two environment variables it reads.\<close>

record ctor_options =
  o_token :: "string option"
  o_reconnectInterval :: "rat option"
  o_maxReconnectInterval :: "rat option"
  o_reconnectDecay :: "rat option"
  o_heartbeatInterval :: "rat option"
  o_debug :: "bool option"

record process_env =
  AUTH_TOKEN :: "string option"
  DEBUG :: "string option"

datatype error = UrlRequired

text \<open>\<open>x || d\<close> on a number: an absent key and \<open>0\<close> are falsy.\<close>

definition or_number :: "rat option \<Rightarrow> rat \<Rightarrow> rat" where
  "or_number v d = (case v of None \<Rightarrow> d | Some x \<Rightarrow> if x = 0 then d else x)"

text \<open>\<open>x || y\<close> on strings: an absent key and the empty string are falsy.\<close>

definition or_string :: "string option \<Rightarrow> string option \<Rightarrow> string option" where
  "or_string v d = (case v of None \<Rightarrow> d | Some x \<Rightarrow> if x = [] then d else Some x)"

definition constructor :: "string \<Rightarrow> ctor_options \<Rightarrow> process_env \<Rightarrow> error + 'm bridge" where
  "constructor u opts env =
     (if u = [] then Inl UrlRequired
      else Inr \<lparr>
        url = u,
        options = \<lparr>
          token = or_string (o_token opts) (AUTH_TOKEN env),
          reconnectInterval = or_number (o_reconnectInterval opts) 1000,
          maxReconnectInterval = or_number (o_maxReconnectInterval opts) 30000,
          reconnectDecay = or_number (o_reconnectDecay opts) (3 / 2),
          heartbeatInterval = or_number (o_heartbeatInterval opts) 30000,
          debug = (o_debug opts = Some True \<or> DEBUG env = Some ''true'') \<rparr>,
        ws = None,
        messageQueue = [],
        reconnectAttempts = 0,
        isConnected = False,
        heartbeatTimer = None,
        reconnectTimer = None,
        timeouts = [],
        intervals = [],
        next_handle = 0,
        effects = [],
        exited = None,
        rl_closed = False,
        stdio_handlers = False \<rparr>)"

text \<open>The options object that \<open>parseArgs\<close> can build: a token and the debug flag,
  never an interval.\<close>

definition cli_options :: "string option \<Rightarrow> bool option \<Rightarrow> ctor_options" where
  "cli_options t d = \<lparr>
     o_token = t,
     o_reconnectInterval = None,
     o_maxReconnectInterval = None,
     o_reconnectDecay = None,
     o_heartbeatInterval = None,
     o_debug = d \<rparr>"

section \<open>The methods\<close>

definition log_msg :: "level \<Rightarrow> string \<Rightarrow> 'm bridge \<Rightarrow> 'm bridge" where
  "log_msg lvl msg s =
     (if debug (options s) then s\<lparr>effects := effects s @ [ConsoleError lvl msg]\<rparr> else s)"

text \<open>\<open>setTimeout\<close> and \<open>setInterval\<close> hand out a fresh handle; \<open>clearTimeout\<close> and
  \<open>clearInterval\<close> drop the timer with the handle given.\<close>

definition setTimeout :: "rat \<Rightarrow> 'm bridge \<Rightarrow> nat \<times> 'm bridge" where
  "setTimeout d s =
     (next_handle s,
      s\<lparr>timeouts := timeouts s @ [(next_handle s, d)], next_handle := Suc (next_handle s)\<rparr>)"

definition setInterval :: "rat \<Rightarrow> 'm bridge \<Rightarrow> nat \<times> 'm bridge" where
  "setInterval d s =
     (next_handle s,
      s\<lparr>intervals := intervals s @ [(next_handle s, d)], next_handle := Suc (next_handle s)\<rparr>)"

definition clearTimeout :: "nat \<Rightarrow> 'm bridge \<Rightarrow> 'm bridge" where
  "clearTimeout h s = s\<lparr>timeouts := filter (\<lambda>t. fst t \<noteq> h) (timeouts s)\<rparr>"

definition clearInterval :: "nat \<Rightarrow> 'm bridge \<Rightarrow> 'm bridge" where
  "clearInterval h s = s\<lparr>intervals := filter (\<lambda>t. fst t \<noteq> h) (intervals s)\<rparr>"

subsection \<open>Reconnect scheduling\<close>

text \<open>The value of \<open>const timeout\<close> in \<open>scheduleReconnect\<close>.\<close>

definition reconnect_timeout :: "options \<Rightarrow> nat \<Rightarrow> rat" where
  "reconnect_timeout opts n =
     min (reconnectInterval opts * reconnectDecay opts ^ n) (maxReconnectInterval opts)"

definition scheduleReconnect :: "'m bridge \<Rightarrow> 'm bridge" where
  "scheduleReconnect s =
     (case reconnectTimer s of
        Some h \<Rightarrow> s
      | None \<Rightarrow>
          let timeout = reconnect_timeout (options s) (reconnectAttempts s);
              s1 = log_msg LInfo ''Scheduling reconnect'' s;
              (h, s2) = setTimeout timeout s1
          in s2\<lparr>reconnectTimer := Some h\<rparr>)"

subsection \<open>Heartbeat\<close>

definition emit :: "'m effect \<Rightarrow> 'm bridge \<Rightarrow> 'm bridge" where
  "emit e s = s\<lparr>effects := effects s @ [e]\<rparr>"

text \<open>The callback that \<open>startHeartbeat\<close> hands to \<open>setInterval\<close>.\<close>

definition heartbeat_tick :: "'m bridge \<Rightarrow> 'm bridge" where
  "heartbeat_tick s =
     (if ws s = Some OPEN then emit WsPing (log_msg LDebug ''Sending ping'' s) else s)"

definition startHeartbeat :: "'m bridge \<Rightarrow> 'm bridge" where
  "startHeartbeat s =
     (let (h, s1) = setInterval (heartbeatInterval (options s)) s
      in s1\<lparr>heartbeatTimer := Some h\<rparr>)"

definition stopHeartbeat :: "'m bridge \<Rightarrow> 'm bridge" where
  "stopHeartbeat s =
     (case heartbeatTimer s of
        Some h \<Rightarrow> (clearInterval h s)\<lparr>heartbeatTimer := None\<rparr>
      | None \<Rightarrow> s)"

subsection \<open>Relaying\<close>

text \<open>
  \<open>ws.send\<close> on an open socket is the effect \<open>WsSend\<close>: it does not throw, and it does
  not change \<open>readyState\<close>, which the library changes only between the turns of the event
  loop.
\<close>

definition sendToWebSocket :: "'m \<Rightarrow> 'm bridge \<Rightarrow> 'm bridge" where
  "sendToWebSocket m s =
     (if isConnected s \<and> ws s = Some OPEN then emit (WsSend m) s
      else
        let s1 = log_msg LWarn ''WebSocket not connected, queuing message'' s
        in s1\<lparr>messageQueue := messageQueue s1 @ [m]\<rparr>)"

definition sendToStdout :: "'m \<Rightarrow> 'm bridge \<Rightarrow> 'm bridge" where
  "sendToStdout m s = emit (ConsoleLog m) s"

text \<open>
  The \<open>while\<close> loop of \<open>flushMessageQueue\<close>. Nothing in the loop bounds the number of
  iterations, so the result is an option: \<open>None\<close> when the loop never ends.
\<close>

definition flush_iteration :: "'m \<Rightarrow> 'm list \<Rightarrow> 'm bridge \<Rightarrow> 'm bridge" where
  \<comment> \<open>the loop body, \<open>m\<close> being the head that \<open>shift()\<close> returns and \<open>ms\<close> what it leaves\<close>
  "flush_iteration m ms s =
     sendToWebSocket m (log_msg LDebug ''Sending queued message:'' (s\<lparr>messageQueue := ms\<rparr>))"

partial_function (option) flushMessageQueue :: "'m bridge \<Rightarrow> 'm bridge option" where
  "flushMessageQueue s =
     (case messageQueue s of
        [] \<Rightarrow> Some s
      | m # ms \<Rightarrow>
          if isConnected s then flushMessageQueue (flush_iteration m ms s) else Some s)"

subsection \<open>Connecting\<close>

text \<open>
  \<open>connect\<close>. Whether \<open>new WebSocket\<close> throws is the caller's argument \<open>throws\<close>.
  A new socket starts in \<open>CONNECTING\<close>; its handlers are the \<open>ws_on_\<close> functions below.
\<close>

definition connect :: "bool \<Rightarrow> 'm bridge \<Rightarrow> 'm bridge" where
  "connect throws s =
     (let headers =
            (case token (options s) of
               Some t \<Rightarrow> if t \<noteq> [] then Some (''Bearer '' @ t) else None
             | None \<Rightarrow> None)
      in if throws
         then scheduleReconnect (log_msg LError ''Failed to create WebSocket:'' s)
         else (emit (WsNew (url s) headers) s)\<lparr>ws := Some CONNECTING\<rparr>)"

text \<open>The callback that \<open>scheduleReconnect\<close> hands to \<open>setTimeout\<close>.\<close>

definition reconnect_callback :: "bool \<Rightarrow> 'm bridge \<Rightarrow> 'm bridge" where
  "reconnect_callback throws s =
     connect throws (s\<lparr>reconnectTimer := None, reconnectAttempts := Suc (reconnectAttempts s)\<rparr>)"

definition ws_on_open :: "'m bridge \<Rightarrow> 'm bridge option" where
  "ws_on_open s =
     flushMessageQueue
       (startHeartbeat
          ((log_msg LInfo ''WebSocket connected'' s)\<lparr>isConnected := True, reconnectAttempts := 0\<rparr>))"

definition ws_on_message :: "(string \<Rightarrow> 'm option) \<Rightarrow> string \<Rightarrow> 'm bridge \<Rightarrow> 'm bridge" where
  "ws_on_message parse data s =
     (case parse data of
        Some m \<Rightarrow> sendToStdout m (log_msg LDebug ''Received from WebSocket:'' s)
      | None \<Rightarrow> log_msg LError ''Failed to parse WebSocket message:'' s)"

definition ws_on_error :: "'m bridge \<Rightarrow> 'm bridge" where
  "ws_on_error s = log_msg LError ''WebSocket error:'' s"

definition ws_on_close :: "'m bridge \<Rightarrow> 'm bridge" where
  "ws_on_close s =
     scheduleReconnect
       (stopHeartbeat ((log_msg LInfo ''WebSocket closed.'' s)\<lparr>isConnected := False\<rparr>))"

definition ws_on_pong :: "'m bridge \<Rightarrow> 'm bridge" where
  "ws_on_pong s = log_msg LDebug ''Received pong'' s"

subsection \<open>Shutdown\<close>

text \<open>\<open>ws.close()\<close>: the call, and what it does to \<open>readyState\<close> (a socket that is not
  yet closed is closing from then on).\<close>

definition ws_close :: "'m bridge \<Rightarrow> 'm bridge" where
  "ws_close s =
     (emit WsCloseCall s)\<lparr>ws := map_option (\<lambda>r. if r = CLOSED then CLOSED else CLOSING) (ws s)\<rparr>"

definition process_exit :: "nat \<Rightarrow> 'm bridge \<Rightarrow> 'm bridge" where
  "process_exit code s = (emit (ProcessExit code) s)\<lparr>exited := Some code\<rparr>"

text \<open>
  \<open>shutdown\<close>, the \<open>rl.close()\<close> that it calls, and the handler of the reader's \<open>close\<close>
  event, which calls \<open>shutdown\<close> in turn. \<open>rl.close()\<close> returns at once on a closed reader;
  on an open one it marks the reader closed and emits \<open>close\<close> before it returns, so that
  the handler, once \<open>setupStdioHandler\<close> has registered it, runs inside the call: a
  \<open>shutdown\<close> on an open reader is re-entered, and it is the inner call that reaches
  \<open>process.exit(0)\<close>. Nothing of the program runs after \<open>process.exit\<close>, so the outer call
  exits only when the reader's handler did not.
\<close>

function shutdown :: "'m bridge \<Rightarrow> 'm bridge"
  and rl_close :: "'m bridge \<Rightarrow> 'm bridge"
  and rl_on_close :: "'m bridge \<Rightarrow> 'm bridge" where
  "shutdown s =
     (let s1 = log_msg LInfo ''Shutting down bridge'' s;
          s2 = (case reconnectTimer s1 of Some h \<Rightarrow> clearTimeout h s1 | None \<Rightarrow> s1);
          s3 = stopHeartbeat s2;
          s4 = (case ws s3 of Some r \<Rightarrow> ws_close s3 | None \<Rightarrow> s3);
          s5 = rl_close s4
      in if exited s5 = None then process_exit 0 s5 else s5)"
| "rl_close s =
     (let s1 = emit RlClose s
      in if rl_closed s1 then s1
         else if stdio_handlers s1 then rl_on_close (s1\<lparr>rl_closed := True\<rparr>)
         else s1\<lparr>rl_closed := True\<rparr>)"
| "rl_on_close s = shutdown (log_msg LInfo ''Stdin closed, shutting down'' s)"
  by pat_completeness auto
termination
  by (relation "measure (\<lambda>x. case x of
          Inl s \<Rightarrow> (if rl_closed s then 0 else 3) + 2
        | Inr (Inl s) \<Rightarrow> (if rl_closed s then 0 else 3) + 1
        | Inr (Inr s) \<Rightarrow> (if rl_closed s then 0 else 3) + 3)")
     (auto simp: log_msg_def emit_def clearTimeout_def clearInterval_def stopHeartbeat_def
        ws_close_def split: option.splits)

declare shutdown.simps [simp del] rl_close.simps [simp del] rl_on_close.simps [simp del]

subsection \<open>The handlers of the local side\<close>

text \<open>
  The other handlers that \<open>setupStdioHandler\<close> registers. \<open>JSON.parse\<close> is the argument
  \<open>parse\<close>: \<open>None\<close> when it throws.
\<close>

definition rl_on_line :: "(string \<Rightarrow> 'm option) \<Rightarrow> string \<Rightarrow> 'm bridge \<Rightarrow> 'm bridge" where
  "rl_on_line parse line s =
     (case parse line of
        Some m \<Rightarrow> sendToWebSocket m (log_msg LDebug ''Received from stdin:'' s)
      | None \<Rightarrow> log_msg LError ''Failed to parse stdin message:'' s)"

definition on_SIGINT :: "'m bridge \<Rightarrow> 'm bridge" where
  "on_SIGINT s = shutdown (log_msg LInfo ''Received SIGINT, shutting down'' s)"

definition on_SIGTERM :: "'m bridge \<Rightarrow> 'm bridge" where
  "on_SIGTERM s = shutdown (log_msg LInfo ''Received SIGTERM, shutting down'' s)"

definition setupStdioHandler :: "'m bridge \<Rightarrow> 'm bridge" where
  "setupStdioHandler s = s\<lparr>stdio_handlers := True\<rparr>"

definition start :: "bool \<Rightarrow> 'm bridge \<Rightarrow> 'm bridge" where
  "start throws s =
     connect throws
       (setupStdioHandler
          (log_msg LInfo ''Connecting to:'' (log_msg LInfo ''Starting MCP WebSocket Bridge'' s)))"

section \<open>The event loop\<close>

text \<open>
  One turn of the event loop runs one handler to its end. The events are the lines and
  the end of standard input, the two signals, the events of the socket held in \<open>ws\<close>,
  and the two kinds of timer. \<open>ReconnectFire h throws\<close> is the pending timeout \<open>h\<close>
  firing, \<open>throws\<close> telling whether \<open>new WebSocket\<close> throws in the \<open>connect\<close> it runs.
  \<open>WsClosing\<close> is the closing handshake beginning on an open socket; no handler runs.
\<close>

datatype event =
    Line string
  | StdinClose
  | SIGINT
  | SIGTERM
  | WsOpen
  | WsMessage string
  | WsError
  | WsClosing
  | WsClose
  | WsPong
  | ReconnectFire nat bool
  | HeartbeatFire nat

text \<open>
  What the runtime and the socket library allow: nothing runs once the process has
  exited; a socket opens once, from \<open>CONNECTING\<close>; it emits \<open>close\<close> once; messages
  and pongs arrive on a socket that has opened; only a pending timer fires.
\<close>

definition enabled :: "event \<Rightarrow> 'm bridge \<Rightarrow> bool" where
  "enabled e s =
     (exited s = None \<and>
      (case e of
         Line l \<Rightarrow> True
       | StdinClose \<Rightarrow> True
       | SIGINT \<Rightarrow> True
       | SIGTERM \<Rightarrow> True
       | WsOpen \<Rightarrow> ws s = Some CONNECTING
       | WsMessage d \<Rightarrow> ws s = Some OPEN \<or> ws s = Some CLOSING
       | WsError \<Rightarrow> ws s \<noteq> None
       | WsClosing \<Rightarrow> ws s = Some OPEN
       | WsClose \<Rightarrow> ws s \<noteq> None \<and> ws s \<noteq> Some CLOSED
       | WsPong \<Rightarrow> ws s = Some OPEN
       | ReconnectFire h throws \<Rightarrow> h \<in> fst ` set (timeouts s)
       | HeartbeatFire h \<Rightarrow> h \<in> fst ` set (intervals s)))"

text \<open>
  The turn of an event: the library's change of \<open>readyState\<close> (or the removal of a
  timeout that fires, or the closing of the reader at the end of standard input), then
  the handler. \<open>None\<close> when the handler does not return.
\<close>

definition handle :: "(string \<Rightarrow> 'm option) \<Rightarrow> event \<Rightarrow> 'm bridge \<Rightarrow> 'm bridge option" where
  "handle parse e s =
     (case e of
        Line l \<Rightarrow> Some (rl_on_line parse l s)
      | StdinClose \<Rightarrow> Some (rl_on_close (s\<lparr>rl_closed := True\<rparr>))
      | SIGINT \<Rightarrow> Some (on_SIGINT s)
      | SIGTERM \<Rightarrow> Some (on_SIGTERM s)
      | WsOpen \<Rightarrow> ws_on_open (s\<lparr>ws := Some OPEN\<rparr>)
      | WsMessage d \<Rightarrow> Some (ws_on_message parse d s)
      | WsError \<Rightarrow> Some (ws_on_error s)
      | WsClosing \<Rightarrow> Some (s\<lparr>ws := Some CLOSING\<rparr>)
      | WsClose \<Rightarrow> Some (ws_on_close (s\<lparr>ws := Some CLOSED\<rparr>))
      | WsPong \<Rightarrow> Some (ws_on_pong s)
      | ReconnectFire h throws \<Rightarrow> Some (reconnect_callback throws (clearTimeout h s))
      | HeartbeatFire h \<Rightarrow> Some (heartbeat_tick s))"

text \<open>A run: the events in order, each enabled in the state it meets.\<close>

fun run :: "(string \<Rightarrow> 'm option) \<Rightarrow> event list \<Rightarrow> 'm bridge \<Rightarrow> 'm bridge option" where
  "run parse [] s = Some s"
| "run parse (e # es) s =
     (if enabled e s
      then (case handle parse e s of None \<Rightarrow> None | Some s' \<Rightarrow> run parse es s')
      else None)"

text \<open>What went to the socket, in order.\<close>

fun ws_sent :: "'m effect list \<Rightarrow> 'm list" where
  "ws_sent [] = []"
| "ws_sent (WsSend m # es) = m # ws_sent es"
| "ws_sent (e # es) = ws_sent es"

section \<open>Notions used in the statements\<close>

text \<open>What a drain of the queue \<open>q\<close> adds to the effects when every delivery succeeds:
  per message the debug line (when debug logging is on) and the write.\<close>

definition drain_effects :: "bool \<Rightarrow> 'm list \<Rightarrow> 'm effect list" where
  "drain_effects dbg q =
     concat (map (\<lambda>m. (if dbg then [ConsoleError LDebug ''Sending queued message:''] else [])
                        @ [WsSend m]) q)"

text \<open>
  The invariant of a running bridge: the pending timeouts are exactly the one that
  \<open>reconnectTimer\<close> holds, the active intervals exactly the one that \<open>heartbeatTimer\<close> holds;
  a heartbeat is armed only on a socket that has opened and not yet closed, a retry is
  pending only when there is no socket or a closed one; the connected flag says that the
  socket has opened and not yet closed; the queue is empty while the socket is open.
\<close>

definition live_inv :: "'m bridge \<Rightarrow> bool" where
  "live_inv s =
     (map fst (timeouts s) = (case reconnectTimer s of None \<Rightarrow> [] | Some h \<Rightarrow> [h]) \<and>
      map fst (intervals s) = (case heartbeatTimer s of None \<Rightarrow> [] | Some h \<Rightarrow> [h]) \<and>
      (heartbeatTimer s = None \<or> ws s = Some OPEN \<or> ws s = Some CLOSING) \<and>
      (reconnectTimer s = None \<or> ws s = None \<or> ws s = Some CLOSED) \<and>
      isConnected s = (ws s = Some OPEN \<or> ws s = Some CLOSING) \<and>
      (ws s = Some OPEN \<longrightarrow> messageQueue s = []))"

text \<open>After \<open>process.exit\<close> no timer is left.\<close>

definition lifecycle_inv :: "'m bridge \<Rightarrow> bool" where
  "lifecycle_inv s =
     (if exited s = None then live_inv s else timeouts s = [] \<and> intervals s = [])"

text \<open>
  Between the opening of a socket and its \<open>close\<close> event: the process runs, the socket is
  open or closing, the attempt counter is 0 and no retry is pending.
\<close>

definition connected_inv :: "'m bridge \<Rightarrow> bool" where
  "connected_inv s =
     (exited s = None \<and> (ws s = Some OPEN \<or> ws s = Some CLOSING) \<and>
      reconnectAttempts s = 0 \<and> reconnectTimer s = None \<and> timeouts s = [])"

text \<open>
  The first four steps of \<open>shutdown\<close>, from the log line to \<open>ws.close()\<close>, and its last
  step: \<open>process.exit(0)\<close>, reached only while the process runs.
\<close>

definition shutdown_steps :: "'m bridge \<Rightarrow> 'm bridge" where
  "shutdown_steps s =
     (let s1 = log_msg LInfo ''Shutting down bridge'' s;
          s2 = (case reconnectTimer s1 of Some h \<Rightarrow> clearTimeout h s1 | None \<Rightarrow> s1);
          s3 = stopHeartbeat s2
      in (case ws s3 of Some r \<Rightarrow> ws_close s3 | None \<Rightarrow> s3))"

definition exit_if_running :: "'m bridge \<Rightarrow> 'm bridge" where
  "exit_if_running s = (if exited s = None then process_exit 0 s else s)"

text \<open>The messages that the lines among the events decode to, in order.\<close>

fun accepted :: "(string \<Rightarrow> 'm option) \<Rightarrow> event list \<Rightarrow> 'm list" where
  "accepted parse [] = []"
| "accepted parse (Line l # es) =
     (case parse l of Some m \<Rightarrow> m # accepted parse es | None \<Rightarrow> accepted parse es)"
| "accepted parse (e # es) = accepted parse es"

text \<open>What has been written to the socket, followed by what waits in the queue.\<close>

definition outbound :: "'m bridge \<Rightarrow> 'm list" where
  "outbound s = ws_sent (effects s) @ messageQueue s"

text \<open>The log line of a line of input that does not parse.\<close>

definition parse_failed :: "'m effect" where
  "parse_failed = ConsoleError LError ''Failed to parse stdin message:''"

section \<open>Example states\<close>

text \<open>
  The bridge of the tests: \<open>mcp2websocket ws://localhost:9999/mcp\<close>, with or without
  \<open>--debug\<close>, in an environment that sets neither variable, as the constructor returns
  it (before \<open>start\<close>).
\<close>

definition no_env :: process_env where
  "no_env = \<lparr>AUTH_TOKEN = None, DEBUG = None\<rparr>"

definition fresh_bridge :: "bool \<Rightarrow> string bridge" where
  "fresh_bridge dbg = \<lparr>
     url = ''ws://localhost:9999/mcp'',
     options = \<lparr>
       token = None, reconnectInterval = 1000, maxReconnectInterval = 30000,
       reconnectDecay = 3 / 2, heartbeatInterval = 30000, debug = dbg \<rparr>,
     ws = None, messageQueue = [], reconnectAttempts = 0, isConnected = False,
     heartbeatTimer = None, reconnectTimer = None, timeouts = [], intervals = [],
     next_handle = 0, effects = [], exited = None, rl_closed = False,
     stdio_handlers = False \<rparr>"

text \<open>
  A stand-in for \<open>JSON.parse\<close> on the lines used in the examples: the JSON numbers
  \<open>1\<close>, \<open>2\<close> and \<open>3\<close> parse, anything else (such as the \<open>{ invalid json }\<close> of the
  tests) throws.
\<close>

definition parse_stub :: "string \<Rightarrow> string option" where
  "parse_stub l = (if l = ''1'' \<or> l = ''2'' \<or> l = ''3'' then Some l else None)"

text \<open>The bridge (without \<open>--debug\<close>) after \<open>start\<close>: its first socket is connecting.\<close>

definition connecting_bridge :: "string bridge" where
  "connecting_bridge = (fresh_bridge False)\<lparr>
     stdio_handlers := True,
     ws := Some CONNECTING, effects := [WsNew ''ws://localhost:9999/mcp'' None]\<rparr>"

text \<open>The bridge (without \<open>--debug\<close>) after \<open>start\<close> and the opening of its socket.\<close>

definition open_bridge :: "string bridge" where
  "open_bridge = (fresh_bridge False)\<lparr>
     stdio_handlers := True,
     ws := Some OPEN, isConnected := True,
     heartbeatTimer := Some 0, intervals := [(0, 30000)], next_handle := 1,
     effects := [WsNew ''ws://localhost:9999/mcp'' None]\<rparr>"

text \<open>
  The bridge (without \<open>--debug\<close>) after its socket opened, the closing handshake began,
  and the lines \<open>1\<close> and \<open>2\<close> arrived: still flagged connected, the socket closing,
  both messages queued.
\<close>

definition closing_bridge :: "string bridge" where
  "closing_bridge = (fresh_bridge False)\<lparr>
     stdio_handlers := True,
     ws := Some CLOSING, messageQueue := [''1'', ''2''], isConnected := True,
     heartbeatTimer := Some 0, intervals := [(0, 30000)], next_handle := 1,
     effects := [WsNew ''ws://localhost:9999/mcp'' None]\<rparr>"

text \<open>The bridge (without \<open>--debug\<close>) after its first socket failed to connect: the
  first retry is pending.\<close>

definition retrying_bridge :: "string bridge" where
  "retrying_bridge = (fresh_bridge False)\<lparr>
     stdio_handlers := True,
     ws := Some CLOSED, timeouts := [(0, 1000)], reconnectTimer := Some 0, next_handle := 1,
     effects := [WsNew ''ws://localhost:9999/mcp'' None]\<rparr>"

text \<open>The bridge (without \<open>--debug\<close>) after two failed connections and two retries:
  the third socket is connecting, the attempt counter is 2.\<close>

definition retried_bridge :: "string bridge" where
  "retried_bridge = (fresh_bridge False)\<lparr>
     stdio_handlers := True,
     ws := Some CONNECTING, reconnectAttempts := 2, next_handle := 2,
     effects := [WsNew ''ws://localhost:9999/mcp'' None, WsNew ''ws://localhost:9999/mcp'' None,
                 WsNew ''ws://localhost:9999/mcp'' None]\<rparr>"

text \<open>That bridge after its third socket opened, the line \<open>1\<close> was relayed, and the
  socket closed.\<close>

definition dropped_bridge :: "string bridge" where
  "dropped_bridge = (fresh_bridge False)\<lparr>
     stdio_handlers := True,
     ws := Some CLOSED, reconnectAttempts := 0, next_handle := 4,
     timeouts := [(3, 1000)], reconnectTimer := Some 3,
     effects := [WsNew ''ws://localhost:9999/mcp'' None, WsNew ''ws://localhost:9999/mcp'' None,
                 WsNew ''ws://localhost:9999/mcp'' None, WsSend ''1'']\<rparr>"

text \<open>\<open>open_bridge\<close> with a retry timer pending as well (no run reaches this state; it is
  the situation "both timers pending" of the specification).\<close>

definition armed_bridge :: "string bridge" where
  "armed_bridge = open_bridge\<lparr>
     reconnectTimer := Some 1, timeouts := [(1, 1000)], next_handle := 2\<rparr>"

section \<open>Lemmas about the methods\<close>

lemma ws_sent_append [simp]: "ws_sent (xs @ ys) = ws_sent xs @ ws_sent ys"
  by (induction xs rule: ws_sent.induct) simp_all

lemma ws_sent_log_msg [simp]: "ws_sent (effects (log_msg l m s)) = ws_sent (effects s)"
  by (simp add: log_msg_def)

lemma ws_sent_drain [simp]: "ws_sent (drain_effects dbg q) = q"
  by (induction q) (simp_all add: drain_effects_def)

lemma flush_empty: "messageQueue s = [] \<Longrightarrow> flushMessageQueue s = Some s"
  by (subst flushMessageQueue.simps) simp

lemma flush_disconnected: "\<not> isConnected s \<Longrightarrow> flushMessageQueue s = Some s"
  by (subst flushMessageQueue.simps) (simp split: list.split)

lemma flush_step:
  "messageQueue s = m # ms \<Longrightarrow> isConnected s \<Longrightarrow>
   flushMessageQueue s = flushMessageQueue (flush_iteration m ms s)"
  by (subst flushMessageQueue.simps) simp

lemma flush_iteration_open:
  "isConnected s \<Longrightarrow> ws s = Some OPEN \<Longrightarrow>
   flush_iteration m ms s =
     s\<lparr>messageQueue := ms,
        effects := effects s @ drain_effects (debug (options s)) [m]\<rparr>"
  by (simp add: flush_iteration_def sendToWebSocket_def log_msg_def emit_def drain_effects_def)

lemma flush_iteration_not_open:
  "ws s \<noteq> Some OPEN \<or> \<not> isConnected s \<Longrightarrow>
   flush_iteration m ms s =
     (log_msg LWarn ''WebSocket not connected, queuing message''
        (log_msg LDebug ''Sending queued message:'' s))\<lparr>messageQueue := ms @ [m]\<rparr>"
  by (auto simp add: flush_iteration_def sendToWebSocket_def log_msg_def emit_def Let_def)

lemma flush_open:
  "isConnected s \<Longrightarrow> ws s = Some OPEN \<Longrightarrow>
   flushMessageQueue s =
     Some (s\<lparr>messageQueue := [],
              effects := effects s @ drain_effects (debug (options s)) (messageQueue s)\<rparr>)"
proof (induction "messageQueue s" arbitrary: s)
  case Nil
  then have "messageQueue s = []" by simp
  then show ?case
    by (simp add: flush_empty drain_effects_def)
next
  case (Cons m ms)
  let ?s1 = "flush_iteration m ms s"
  have q: "messageQueue s = m # ms" using Cons.hyps(2) by simp
  have s1: "?s1 = s\<lparr>messageQueue := ms,
        effects := effects s @ drain_effects (debug (options s)) [m]\<rparr>"
    using Cons.prems by (rule flush_iteration_open)
  have "flushMessageQueue s = flushMessageQueue ?s1"
    using q Cons.prems(1) by (rule flush_step)
  also have "\<dots> = Some (?s1\<lparr>messageQueue := [],
              effects := effects ?s1 @ drain_effects (debug (options ?s1)) (messageQueue ?s1)\<rparr>)"
    by (rule Cons.hyps(1)) (simp_all add: s1 Cons.prems)
  also have "\<dots> = Some (s\<lparr>messageQueue := [],
              effects := effects s @ drain_effects (debug (options s)) (messageQueue s)\<rparr>)"
    by (simp add: s1 q drain_effects_def)
  finally show ?case .
qed

lemma flush_returns_not_stuck:
  "flushMessageQueue s = Some y \<Longrightarrow>
   \<not> (isConnected s \<and> ws s \<noteq> Some OPEN \<and> messageQueue s \<noteq> [])"
proof (rule flushMessageQueue.raw_induct
         [where P = "\<lambda>s y. \<not> (isConnected s \<and> ws s \<noteq> Some OPEN \<and> messageQueue s \<noteq> [])"])
  fix f and s y :: "'a bridge"
  assume IH: "\<And>s y. f s = Some y \<Longrightarrow>
                \<not> (isConnected s \<and> ws s \<noteq> Some OPEN \<and> messageQueue s \<noteq> [])"
    and body: "(case messageQueue s of [] \<Rightarrow> Some s
                | m # ms \<Rightarrow> if isConnected s then f (flush_iteration m ms s) else Some s) = Some y"
  show "\<not> (isConnected s \<and> ws s \<noteq> Some OPEN \<and> messageQueue s \<noteq> [])"
  proof
    assume bad: "isConnected s \<and> ws s \<noteq> Some OPEN \<and> messageQueue s \<noteq> []"
    then obtain m ms where q: "messageQueue s = m # ms"
      by (cases "messageQueue s") auto
    let ?s1 = "flush_iteration m ms s"
    from body q bad have "f ?s1 = Some y" by simp
    then have "\<not> (isConnected ?s1 \<and> ws ?s1 \<noteq> Some OPEN \<and> messageQueue ?s1 \<noteq> [])"
      by (rule IH)
    moreover have "isConnected ?s1 \<and> ws ?s1 \<noteq> Some OPEN \<and> messageQueue ?s1 \<noteq> []"
      using bad by (simp add: flush_iteration_not_open log_msg_def)
    ultimately show False by contradiction
  qed
qed

lemma flush_diverges:
  assumes "isConnected s" and "ws s \<noteq> Some OPEN" and "messageQueue s \<noteq> []"
  shows "flushMessageQueue s = None"
proof (cases "flushMessageQueue s")
  case None
  then show ?thesis .
next
  case (Some y)
  then show ?thesis
    using assms flush_returns_not_stuck by blast
qed



lemma log_msg_fields [simp]:
  "url (log_msg l m s) = url s"
  "options (log_msg l m s) = options s"
  "ws (log_msg l m s) = ws s"
  "messageQueue (log_msg l m s) = messageQueue s"
  "reconnectAttempts (log_msg l m s) = reconnectAttempts s"
  "isConnected (log_msg l m s) = isConnected s"
  "heartbeatTimer (log_msg l m s) = heartbeatTimer s"
  "reconnectTimer (log_msg l m s) = reconnectTimer s"
  "timeouts (log_msg l m s) = timeouts s"
  "intervals (log_msg l m s) = intervals s"
  "next_handle (log_msg l m s) = next_handle s"
  "exited (log_msg l m s) = exited s"
  "rl_closed (log_msg l m s) = rl_closed s"
  "stdio_handlers (log_msg l m s) = stdio_handlers s"
  by (simp_all add: log_msg_def)

lemma emit_fields [simp]:
  "url (emit e s) = url s"
  "options (emit e s) = options s"
  "ws (emit e s) = ws s"
  "messageQueue (emit e s) = messageQueue s"
  "reconnectAttempts (emit e s) = reconnectAttempts s"
  "isConnected (emit e s) = isConnected s"
  "heartbeatTimer (emit e s) = heartbeatTimer s"
  "reconnectTimer (emit e s) = reconnectTimer s"
  "timeouts (emit e s) = timeouts s"
  "intervals (emit e s) = intervals s"
  "next_handle (emit e s) = next_handle s"
  "exited (emit e s) = exited s"
  "rl_closed (emit e s) = rl_closed s"
  "stdio_handlers (emit e s) = stdio_handlers s"
  "effects (emit e s) = effects s @ [e]"
  by (simp_all add: emit_def)

text \<open>
  \<open>shutdown\<close> in closed form. On an open reader with the handlers registered the steps
  from the log line to \<open>rl.close()\<close> run twice, the second time inside the first
  \<open>rl.close()\<close>, and the inner call exits.
\<close>

lemma shutdown_steps_fields [simp]:
  "url (shutdown_steps s) = url s"
  "options (shutdown_steps s) = options s"
  "ws (shutdown_steps s) = map_option (\<lambda>r. if r = CLOSED then CLOSED else CLOSING) (ws s)"
  "messageQueue (shutdown_steps s) = messageQueue s"
  "reconnectAttempts (shutdown_steps s) = reconnectAttempts s"
  "isConnected (shutdown_steps s) = isConnected s"
  "heartbeatTimer (shutdown_steps s) = None"
  "reconnectTimer (shutdown_steps s) = reconnectTimer s"
  "timeouts (shutdown_steps s) =
     (case reconnectTimer s of
        Some h \<Rightarrow> filter (\<lambda>t. fst t \<noteq> h) (timeouts s) | None \<Rightarrow> timeouts s)"
  "intervals (shutdown_steps s) =
     (case heartbeatTimer s of
        Some h \<Rightarrow> filter (\<lambda>t. fst t \<noteq> h) (intervals s) | None \<Rightarrow> intervals s)"
  "next_handle (shutdown_steps s) = next_handle s"
  "exited (shutdown_steps s) = exited s"
  "rl_closed (shutdown_steps s) = rl_closed s"
  "stdio_handlers (shutdown_steps s) = stdio_handlers s"
  "effects (shutdown_steps s) =
     effects (log_msg LInfo ''Shutting down bridge'' s)
     @ (if ws s = None then [] else [WsCloseCall])"
  by (cases "reconnectTimer s"; cases "heartbeatTimer s"; cases "ws s";
      simp add: shutdown_steps_def clearTimeout_def clearInterval_def stopHeartbeat_def
        ws_close_def Let_def)+

lemma shutdown_unfold:
  "shutdown s =
     (let s5 = rl_close (shutdown_steps s)
      in if exited s5 = None then process_exit 0 s5 else s5)"
  by (simp add: shutdown.simps[of s] shutdown_steps_def Let_def)

lemma rl_close_closed: "rl_closed s \<Longrightarrow> rl_close s = emit RlClose s"
  by (simp add: rl_close.simps[of s])

lemma shutdown_closed:
  "rl_closed s \<Longrightarrow> shutdown s = exit_if_running (emit RlClose (shutdown_steps s))"
  by (simp add: shutdown_unfold rl_close_closed exit_if_running_def Let_def)

lemma shutdown_unhandled:
  "\<not> rl_closed s \<Longrightarrow> \<not> stdio_handlers s \<Longrightarrow>
   shutdown s = exit_if_running ((emit RlClose (shutdown_steps s))\<lparr>rl_closed := True\<rparr>)"
  by (simp add: shutdown_unfold rl_close.simps[of "shutdown_steps s"] exit_if_running_def
        Let_def)

lemma exited_exit_if_running: "exited (exit_if_running s) \<noteq> None"
  by (simp add: exit_if_running_def process_exit_def)

lemma shutdown_reentered:
  assumes "\<not> rl_closed s" and "stdio_handlers s"
  shows "shutdown s =
     exit_if_running
       (emit RlClose
          (shutdown_steps
             (log_msg LInfo ''Stdin closed, shutting down''
                ((emit RlClose (shutdown_steps s))\<lparr>rl_closed := True\<rparr>))))"
proof -
  let ?x = "(emit RlClose (shutdown_steps s))\<lparr>rl_closed := True\<rparr>"
  let ?inner = "shutdown (log_msg LInfo ''Stdin closed, shutting down'' ?x)"
  have c: "rl_close (shutdown_steps s) = ?inner"
    using assms by (simp add: rl_close.simps[of "shutdown_steps s"] rl_on_close.simps Let_def)
  have i: "?inner = exit_if_running
             (emit RlClose (shutdown_steps (log_msg LInfo ''Stdin closed, shutting down'' ?x)))"
    by (rule shutdown_closed) simp
  have "exited ?inner \<noteq> None"
    unfolding i by (rule exited_exit_if_running)
  then obtain code where "exited ?inner = Some code"
    by auto
  moreover have "shutdown s = (if exited ?inner = None then process_exit 0 ?inner else ?inner)"
    by (simp only: shutdown_unfold[of s] c Let_def)
  ultimately have "shutdown s = ?inner"
    by simp
  with i show ?thesis by simp
qed

lemma exit_if_running_fields [simp]:
  "url (exit_if_running s) = url s"
  "options (exit_if_running s) = options s"
  "ws (exit_if_running s) = ws s"
  "messageQueue (exit_if_running s) = messageQueue s"
  "reconnectAttempts (exit_if_running s) = reconnectAttempts s"
  "isConnected (exit_if_running s) = isConnected s"
  "heartbeatTimer (exit_if_running s) = heartbeatTimer s"
  "reconnectTimer (exit_if_running s) = reconnectTimer s"
  "timeouts (exit_if_running s) = timeouts s"
  "intervals (exit_if_running s) = intervals s"
  "next_handle (exit_if_running s) = next_handle s"
  "rl_closed (exit_if_running s) = rl_closed s"
  "stdio_handlers (exit_if_running s) = stdio_handlers s"
  "exited s = None \<Longrightarrow> exited (exit_if_running s) = Some 0"
  "exited s = None \<Longrightarrow> effects (exit_if_running s) = effects s @ [ProcessExit 0]"
  "ws_sent (effects (exit_if_running s)) = ws_sent (effects s)"
  by (simp_all add: exit_if_running_def process_exit_def)

lemma filter_filter_handle [simp]:
  "filter (\<lambda>t. fst t \<noteq> h) (filter (\<lambda>t. fst t \<noteq> h) xs) = filter (\<lambda>t. fst t \<noteq> h) xs"
  by (induction xs) simp_all

text \<open>What \<open>shutdown\<close> leaves of the fields, whichever of the three ways it takes.\<close>

lemma shutdown_fields:
  "options (shutdown s) = options s"
  "reconnectAttempts (shutdown s) = reconnectAttempts s"
  "messageQueue (shutdown s) = messageQueue s"
  "ws_sent (effects (shutdown s)) = ws_sent (effects s)"
  "heartbeatTimer (shutdown s) = None"
  "timeouts (shutdown s) =
     (case reconnectTimer s of
        Some h \<Rightarrow> filter (\<lambda>t. fst t \<noteq> h) (timeouts s) | None \<Rightarrow> timeouts s)"
  "intervals (shutdown s) =
     (case heartbeatTimer s of
        Some h \<Rightarrow> filter (\<lambda>t. fst t \<noteq> h) (intervals s) | None \<Rightarrow> intervals s)"
  "exited s = None \<Longrightarrow> exited (shutdown s) = Some 0"
  by (cases "rl_closed s"; cases "stdio_handlers s";
      simp add: shutdown_closed shutdown_unhandled shutdown_reentered split: option.splits)+

lemmas method_defs =
  setTimeout_def setInterval_def clearTimeout_def clearInterval_def
  scheduleReconnect_def startHeartbeat_def stopHeartbeat_def sendToWebSocket_def
  sendToStdout_def connect_def reconnect_callback_def ws_on_message_def ws_on_error_def
  ws_on_close_def ws_on_pong_def ws_close_def process_exit_def rl_on_line_def
  on_SIGINT_def on_SIGTERM_def setupStdioHandler_def start_def heartbeat_tick_def

lemma ws_on_open_open:
  "ws s = Some OPEN \<Longrightarrow>
   ws_on_open s =
     Some ((log_msg LInfo ''WebSocket connected'' s)\<lparr>
        isConnected := True, reconnectAttempts := 0,
        heartbeatTimer := Some (next_handle s),
        intervals := intervals s @ [(next_handle s, heartbeatInterval (options s))],
        next_handle := Suc (next_handle s),
        messageQueue := [],
        effects := effects (log_msg LInfo ''WebSocket connected'' s)
                   @ drain_effects (debug (options s)) (messageQueue s)\<rparr>)"
  unfolding ws_on_open_def
  by (subst flush_open) (simp_all add: startHeartbeat_def setInterval_def)



lemma filter_only_handle [simp]:
  "map fst xs = [a] \<Longrightarrow> filter (\<lambda>t. fst t \<noteq> a) xs = []"
  by (cases xs) auto

lemma inv_line: "live_inv s \<Longrightarrow> live_inv (rl_on_line parse l s)"
  by (auto simp: live_inv_def rl_on_line_def sendToWebSocket_def Let_def split: option.splits)

lemma exited_line: "exited (rl_on_line parse l s) = exited s"
  by (simp add: rl_on_line_def sendToWebSocket_def Let_def split: option.splits)

lemma inv_shutdown:
  "live_inv s \<Longrightarrow> exited s = None \<Longrightarrow>
   timeouts (shutdown s) = [] \<and> intervals (shutdown s) = [] \<and> exited (shutdown s) = Some 0"
  by (cases "reconnectTimer s"; cases "heartbeatTimer s")
     (simp_all add: live_inv_def shutdown_fields)

lemma inv_open:
  "live_inv s \<Longrightarrow> ws s = Some CONNECTING \<Longrightarrow> ws_on_open (s\<lparr>ws := Some OPEN\<rparr>) = Some s' \<Longrightarrow>
   live_inv s' \<and> exited s' = exited s"
  by (auto simp: ws_on_open_open live_inv_def)

lemma inv_message: "live_inv s \<Longrightarrow> live_inv (ws_on_message parse d s)"
  by (auto simp: live_inv_def ws_on_message_def sendToStdout_def split: option.splits)

lemma exited_message: "exited (ws_on_message parse d s) = exited s"
  by (simp add: ws_on_message_def sendToStdout_def split: option.splits)

lemma inv_close:
  "live_inv s \<Longrightarrow> ws s \<noteq> None \<Longrightarrow> ws s \<noteq> Some CLOSED \<Longrightarrow>
   live_inv (ws_on_close (s\<lparr>ws := Some CLOSED\<rparr>))"
  by (cases "reconnectTimer s"; cases "heartbeatTimer s")
     (auto simp: live_inv_def ws_on_close_def stopHeartbeat_def scheduleReconnect_def
        setTimeout_def clearInterval_def Let_def)

lemma exited_close: "exited (ws_on_close s) = exited s"
  by (cases "reconnectTimer s"; cases "heartbeatTimer s")
     (simp_all add: ws_on_close_def stopHeartbeat_def scheduleReconnect_def
        setTimeout_def clearInterval_def Let_def)

lemma inv_fire:
  "live_inv s \<Longrightarrow> h \<in> fst ` set (timeouts s) \<Longrightarrow>
   live_inv (reconnect_callback throws (clearTimeout h s))"
  by (cases "reconnectTimer s"; cases "heartbeatTimer s")
     (auto simp: live_inv_def reconnect_callback_def connect_def scheduleReconnect_def
        setTimeout_def clearTimeout_def Let_def)

lemma exited_fire: "exited (reconnect_callback throws (clearTimeout h s)) = exited s"
  by (simp add: reconnect_callback_def connect_def scheduleReconnect_def
        setTimeout_def clearTimeout_def Let_def)

lemma inv_tick: "live_inv s \<Longrightarrow> live_inv (heartbeat_tick s)"
  by (auto simp: live_inv_def heartbeat_tick_def)

lemma exited_tick: "exited (heartbeat_tick s) = exited s"
  by (simp add: heartbeat_tick_def)


lemma handle_simps [simp]:
  "handle parse (Line l) s = Some (rl_on_line parse l s)"
  "handle parse StdinClose s = Some (rl_on_close (s\<lparr>rl_closed := True\<rparr>))"
  "handle parse SIGINT s = Some (on_SIGINT s)"
  "handle parse SIGTERM s = Some (on_SIGTERM s)"
  "handle parse WsOpen s = ws_on_open (s\<lparr>ws := Some OPEN\<rparr>)"
  "handle parse (WsMessage d) s = Some (ws_on_message parse d s)"
  "handle parse WsError s = Some (ws_on_error s)"
  "handle parse WsClosing s = Some (s\<lparr>ws := Some CLOSING\<rparr>)"
  "handle parse WsClose s = Some (ws_on_close (s\<lparr>ws := Some CLOSED\<rparr>))"
  "handle parse WsPong s = Some (ws_on_pong s)"
  "handle parse (ReconnectFire h throws) s = Some (reconnect_callback throws (clearTimeout h s))"
  "handle parse (HeartbeatFire h) s = Some (heartbeat_tick s)"
  by (simp_all add: handle_def)

lemma enabled_simps [simp]:
  "enabled (Line l) s = (exited s = None)"
  "enabled StdinClose s = (exited s = None)"
  "enabled SIGINT s = (exited s = None)"
  "enabled SIGTERM s = (exited s = None)"
  "enabled WsOpen s = (exited s = None \<and> ws s = Some CONNECTING)"
  "enabled (WsMessage d) s = (exited s = None \<and> (ws s = Some OPEN \<or> ws s = Some CLOSING))"
  "enabled WsError s = (exited s = None \<and> ws s \<noteq> None)"
  "enabled WsClosing s = (exited s = None \<and> ws s = Some OPEN)"
  "enabled WsClose s = (exited s = None \<and> ws s \<noteq> None \<and> ws s \<noteq> Some CLOSED)"
  "enabled WsPong s = (exited s = None \<and> ws s = Some OPEN)"
  "enabled (ReconnectFire h throws) s = (exited s = None \<and> h \<in> fst ` set (timeouts s))"
  "enabled (HeartbeatFire h) s = (exited s = None \<and> h \<in> fst ` set (intervals s))"
  by (simp_all add: enabled_def)

lemma enabled_not_exited: "enabled e s \<Longrightarrow> exited s = None"
  by (simp add: enabled_def)

lemma live_inv_log_msg [simp]: "live_inv (log_msg l m s) = live_inv s"
  by (simp add: live_inv_def)

lemma live_inv_rl_closed [simp]: "live_inv (s\<lparr>rl_closed := b\<rparr>) = live_inv s"
  by (simp add: live_inv_def)

lemma inv_shutdown_logged:
  "live_inv s \<Longrightarrow> exited s = None \<Longrightarrow> lifecycle_inv (shutdown (log_msg l m s))"
proof -
  assume "live_inv s" and "exited s = None"
  then have "live_inv (log_msg l m s)" and "exited (log_msg l m s) = None" by simp_all
  from inv_shutdown[OF this] show ?thesis by (simp add: lifecycle_inv_def)
qed

lemma inv_closing: "live_inv s \<Longrightarrow> ws s = Some OPEN \<Longrightarrow> live_inv (s\<lparr>ws := Some CLOSING\<rparr>)"
  by (simp add: live_inv_def)

lemma inv_handle:
  assumes "live_inv s" and "enabled e s" and "handle parse e s = Some s'"
  shows "lifecycle_inv s'"
proof -
  have ex: "exited s = None" using assms(2) by (rule enabled_not_exited)
  show ?thesis
  proof (cases e)
    case (Line l)
    with assms(3) have "s' = rl_on_line parse l s" by simp
    with assms(1) ex show ?thesis
      by (simp add: lifecycle_inv_def inv_line exited_line)
  next
    case StdinClose
    with assms(3) have "s' = rl_on_close (s\<lparr>rl_closed := True\<rparr>)" by simp
    with assms(1) ex show ?thesis
      by (simp add: rl_on_close.simps inv_shutdown_logged)
  next
    case SIGINT
    with assms(3) have "s' = on_SIGINT s" by simp
    with assms(1) ex show ?thesis
      by (simp add: on_SIGINT_def inv_shutdown_logged)
  next
    case SIGTERM
    with assms(3) have "s' = on_SIGTERM s" by simp
    with assms(1) ex show ?thesis
      by (simp add: on_SIGTERM_def inv_shutdown_logged)
  next
    case WsOpen
    with assms(2,3) have "ws s = Some CONNECTING"
      and "ws_on_open (s\<lparr>ws := Some OPEN\<rparr>) = Some s'"
      by simp_all
    with assms(1) ex inv_open[of s s'] show ?thesis
      by (simp add: lifecycle_inv_def)
  next
    case (WsMessage d)
    with assms(3) have "s' = ws_on_message parse d s" by simp
    with assms(1) ex show ?thesis
      by (simp add: lifecycle_inv_def inv_message exited_message)
  next
    case WsError
    with assms(3) have "s' = ws_on_error s" by simp
    with assms(1) ex show ?thesis
      by (simp add: lifecycle_inv_def ws_on_error_def)
  next
    case WsClosing
    with assms(2,3) have "s' = s\<lparr>ws := Some CLOSING\<rparr>" and "ws s = Some OPEN" by simp_all
    with assms(1) ex show ?thesis
      by (simp add: lifecycle_inv_def inv_closing)
  next
    case WsClose
    with assms(2,3) have "s' = ws_on_close (s\<lparr>ws := Some CLOSED\<rparr>)"
      and "ws s \<noteq> None" and "ws s \<noteq> Some CLOSED" by simp_all
    with assms(1) ex show ?thesis
      by (simp add: lifecycle_inv_def inv_close exited_close)
  next
    case WsPong
    with assms(3) have "s' = ws_on_pong s" by simp
    with assms(1) ex show ?thesis
      by (simp add: lifecycle_inv_def ws_on_pong_def)
  next
    case (ReconnectFire h throws)
    with assms(2,3) have en: "h \<in> fst ` set (timeouts s)"
      and s': "s' = reconnect_callback throws (clearTimeout h s)"
      by simp_all
    from inv_fire[OF assms(1) en] show ?thesis
      by (simp add: s' lifecycle_inv_def exited_fire ex)
  next
    case (HeartbeatFire h)
    with assms(3) have "s' = heartbeat_tick s" by simp
    with assms(1) ex show ?thesis
      by (simp add: lifecycle_inv_def inv_tick exited_tick)
  qed
qed

lemma inv_run:
  "lifecycle_inv s \<Longrightarrow> run parse es s = Some s' \<Longrightarrow> lifecycle_inv s'"
proof (induction es arbitrary: s)
  case Nil
  then show ?case by simp
next
  case (Cons e es)
  from Cons.prems(2) obtain s1 where en: "enabled e s" and h: "handle parse e s = Some s1"
    and r: "run parse es s1 = Some s'"
    by (auto split: if_splits option.splits)
  from en have "exited s = None" by (simp add: enabled_def)
  with Cons.prems(1) have "live_inv s" by (simp add: lifecycle_inv_def)
  then have "lifecycle_inv s1" using en h by (rule inv_handle)
  then show ?case using r by (rule Cons.IH)
qed

lemma inv_start:
  "constructor u opts env = Inr b \<Longrightarrow> lifecycle_inv (start throws b)"
  by (auto simp: constructor_def lifecycle_inv_def live_inv_def start_def setupStdioHandler_def
        connect_def
        scheduleReconnect_def setTimeout_def Let_def split: if_splits)

section \<open>Reconnect scheduling\<close>

lemma constructor_fresh:
  "constructor ''ws://localhost:9999/mcp'' (cli_options None (Some dbg)) no_env = Inr (fresh_bridge dbg)"
  by (simp add: constructor_def cli_options_def no_env_def fresh_bridge_def or_number_def or_string_def)

lemma constructor_defaults:
  assumes "constructor u opts env = Inr b"
    and "o_reconnectInterval opts = None"
    and "o_maxReconnectInterval opts = None"
    and "o_reconnectDecay opts = None"
  shows "reconnect_timeout (options b) n = min (1000 * (3 / 2) ^ n) 30000"
  using assms
  by (auto simp: constructor_def or_number_def reconnect_timeout_def split: if_splits)

lemma default_delay_mono:
  "min (1000 * (3 / 2 :: rat) ^ n) 30000 \<le> min (1000 * (3 / 2) ^ Suc n) 30000"
proof -
  have "(3 / 2 :: rat) ^ n \<le> (3 / 2) ^ Suc n"
    by (rule power_increasing) simp_all
  then have "1000 * (3 / 2 :: rat) ^ n \<le> 1000 * (3 / 2) ^ Suc n"
    by (simp only: mult_le_cancel_left_pos) 
  then show ?thesis
    by (rule min.mono) simp
qed

lemma default_delay_clamped: "min (1000 * (3 / 2 :: rat) ^ (n + 9)) 30000 = 30000"
proof -
  have "(3 / 2 :: rat) ^ 9 \<le> (3 / 2) ^ (n + 9)"
    by (rule power_increasing) simp_all
  moreover have "(30 :: rat) \<le> (3 / 2) ^ 9"
    by (simp add: power_divide)
  ultimately have "(30 :: rat) \<le> (3 / 2) ^ (n + 9)"
    by (rule order_trans[rotated])
  then have "(30000 :: rat) \<le> 1000 * (3 / 2) ^ (n + 9)"
    by simp
  then show ?thesis
    by (simp add: min_def)
qed

lemma default_delay_values:
  "map (\<lambda>n. min (1000 * (3 / 2 :: rat) ^ n) 30000) [0, 1, 2, 3] = [1000, 1500, 2250, 3375]"
  by (simp add: power_divide eval_nat_numeral)

lemma scheduleReconnect_idle:
  "reconnectTimer s = None \<Longrightarrow>
   scheduleReconnect s =
     (log_msg LInfo ''Scheduling reconnect'' s)\<lparr>
        timeouts := timeouts s @ [(next_handle s, reconnect_timeout (options s) (reconnectAttempts s))],
        next_handle := Suc (next_handle s),
        reconnectTimer := Some (next_handle s)\<rparr>"
  by (simp add: scheduleReconnect_def setTimeout_def Let_def)

lemma scheduleReconnect_pending:
  "reconnectTimer s = Some h \<Longrightarrow> scheduleReconnect s = s"
  by (simp add: scheduleReconnect_def)

text \<open>
  Claim C1. With the default configuration (no interval given to the constructor), a
  call of \<open>scheduleReconnect\<close> with no retry pending arms one timer whose delay is
  \<open>min (1000 * 1.5^n) 30000\<close>, \<open>n\<close> being the attempt counter. The delays for
  \<open>n = 0, 1, 2, 3\<close> are 1000, 1500, 2250 and 3375; the delay never decreases with \<open>n\<close>,
  never exceeds 30000, and is 30000 from \<open>n = 9\<close> on.
\<close>

theorem backoff_delay:
  assumes "constructor u opts env = Inr b"
    and "o_reconnectInterval opts = None"
    and "o_maxReconnectInterval opts = None"
    and "o_reconnectDecay opts = None"
    and "options s = options b"
    and "reconnectTimer s = None"
  shows "timeouts (scheduleReconnect s) =
           timeouts s @ [(next_handle s, min (1000 * (3 / 2) ^ reconnectAttempts s) 30000)] \<and>
         (\<forall>n. reconnect_timeout (options s) n = min (1000 * (3 / 2) ^ n) 30000) \<and>
         map (reconnect_timeout (options s)) [0, 1, 2, 3] = [1000, 1500, 2250, 3375] \<and>
         (\<forall>n. reconnect_timeout (options s) n \<le> reconnect_timeout (options s) (Suc n)) \<and>
         (\<forall>n. reconnect_timeout (options s) n \<le> 30000) \<and>
         (\<forall>n. reconnect_timeout (options s) (n + 9) = 30000)"
proof -
  have d: "reconnect_timeout (options s) n = min (1000 * (3 / 2) ^ n) 30000" for n
    using assms(1-4) by (simp only: assms(5) constructor_defaults)
  have "timeouts (scheduleReconnect s) =
          timeouts s @ [(next_handle s, min (1000 * (3 / 2) ^ reconnectAttempts s) 30000)]"
    using assms(6) by (simp add: scheduleReconnect_idle d)
  moreover have "map (reconnect_timeout (options s)) [0, 1, 2, 3] = [1000, 1500, 2250, 3375]"
    using default_delay_values by (simp add: d)
  moreover have "reconnect_timeout (options s) n \<le> reconnect_timeout (options s) (Suc n)" for n
    unfolding d by (rule default_delay_mono)
  moreover have "reconnect_timeout (options s) n \<le> 30000" for n
    unfolding d by simp
  moreover have "reconnect_timeout (options s) (n + 9) = 30000" for n
    unfolding d by (rule default_delay_clamped)
  ultimately show ?thesis using d by blast
qed

theorem backoff_delay_witness:
  "constructor ''ws://localhost:9999/mcp'' (cli_options None (Some True)) no_env
     = Inr (fresh_bridge True) \<and>
   timeouts (scheduleReconnect ((fresh_bridge True)\<lparr>reconnectAttempts := 2\<rparr>)) = [(0, 2250)] \<and>
   timeouts (scheduleReconnect ((fresh_bridge True)\<lparr>reconnectAttempts := 20\<rparr>)) = [(0, 30000)]"
proof -
  have c: "constructor ''ws://localhost:9999/mcp'' (cli_options None (Some True)) no_env
     = Inr (fresh_bridge True)"
    by (rule constructor_fresh)
  have o: "o_reconnectInterval (cli_options None (Some True)) = None"
    "o_maxReconnectInterval (cli_options None (Some True)) = None"
    "o_reconnectDecay (cli_options None (Some True)) = None"
    by (simp_all add: cli_options_def)
  have "timeouts (scheduleReconnect ((fresh_bridge True)\<lparr>reconnectAttempts := 2\<rparr>)) = [(0, 2250)]"
    using backoff_delay[OF c o, of "(fresh_bridge True)\<lparr>reconnectAttempts := 2\<rparr>"]
    by (simp add: fresh_bridge_def power_divide eval_nat_numeral)
  moreover have "timeouts (scheduleReconnect ((fresh_bridge True)\<lparr>reconnectAttempts := 20\<rparr>)) = [(0, 30000)]"
    using backoff_delay[OF c o, of "(fresh_bridge True)\<lparr>reconnectAttempts := 20\<rparr>"]
    by (simp add: fresh_bridge_def power_divide)
  ultimately show ?thesis using c by simp
qed

section \<open>The queue\<close>

lemma closing_bridge_reachable:
  "run parse_stub [WsOpen, WsClosing, Line ''1'', Line ''2''] (start False (fresh_bridge False))
     = Some closing_bridge"
  by (simp add: start_def setupStdioHandler_def connect_def
        fresh_bridge_def closing_bridge_def log_msg_def emit_def
        ws_on_open_open drain_effects_def rl_on_line_def parse_stub_def sendToWebSocket_def)

text \<open>
  Claim C2, as stated: a message popped during a drain whose delivery fails because the
  socket is not open goes back to the head of the queue and the loop stops, so that the
  queue is as before the pop. It fails on \<open>closing_bridge\<close>, a state that a run reaches:
  the iteration for the head \<open>1\<close> of the queue \<open>[1, 2]\<close> leaves the queue \<open>[2, 1]\<close>, and
  the loop never ends.
\<close>

theorem failed_delivery_counterexample:
  "run parse_stub [WsOpen, WsClosing, Line ''1'', Line ''2''] (start False (fresh_bridge False))
     = Some closing_bridge \<and>
   isConnected closing_bridge \<and> ws closing_bridge = Some CLOSING \<and>
   messageQueue closing_bridge = [''1'', ''2''] \<and>
   messageQueue (flush_iteration ''1'' [''2''] closing_bridge) = [''2'', ''1''] \<and>
   flushMessageQueue closing_bridge = None"
proof -
  have "flushMessageQueue closing_bridge = None"
    by (rule flush_diverges) (simp_all add: closing_bridge_def)
  moreover have "messageQueue (flush_iteration ''1'' [''2''] closing_bridge) = [''2'', ''1'']"
    by (simp add: flush_iteration_not_open closing_bridge_def)
  ultimately show ?thesis
    using closing_bridge_reachable by (simp add: closing_bridge_def)
qed

text \<open>
  Claim C2, amended. A message popped from the head during a drain whose delivery fails
  because the socket is not open is appended to the tail of the queue by
  \<open>sendToWebSocket\<close>: nothing is written to the socket and no message is lost, the queue
  then holding the messages that were behind it followed by it. A drain that finds the
  connected flag off returns at once and leaves the queue as it is.
\<close>

theorem failed_delivery_requeues_at_tail:
  "(messageQueue s = m # ms \<and> ws s \<noteq> Some OPEN \<longrightarrow>
      messageQueue (flush_iteration m ms s) = ms @ [m] \<and>
      ws_sent (effects (flush_iteration m ms s)) = ws_sent (effects s) \<and>
      isConnected (flush_iteration m ms s) = isConnected s) \<and>
   (\<not> isConnected s \<longrightarrow> flushMessageQueue s = Some s)"
  by (simp add: flush_iteration_not_open flush_disconnected)

theorem failed_delivery_requeues_at_tail_witness:
  "messageQueue closing_bridge = [''1'', ''2''] \<and>
   ws closing_bridge = Some CLOSING \<and>
   messageQueue (flush_iteration ''1'' [''2''] closing_bridge) = [''2'', ''1''] \<and>
   ws_sent (effects (flush_iteration ''1'' [''2''] closing_bridge)) = [] \<and>
   flushMessageQueue (fresh_bridge False) = Some (fresh_bridge False)"
  using failed_delivery_requeues_at_tail[of closing_bridge "''1''" "[''2'']"]
    failed_delivery_requeues_at_tail[of "fresh_bridge False"]
  by (simp add: closing_bridge_def fresh_bridge_def)

section \<open>Heartbeat\<close>

lemma open_bridge_reachable:
  "run parse_stub [WsOpen] (start False (fresh_bridge False)) = Some open_bridge"
  by (simp add: start_def setupStdioHandler_def connect_def
        fresh_bridge_def open_bridge_def log_msg_def emit_def
        ws_on_open_open drain_effects_def)

lemma startHeartbeat_eq:
  "startHeartbeat s =
     s\<lparr>intervals := intervals s @ [(next_handle s, heartbeatInterval (options s))],
       next_handle := Suc (next_handle s),
       heartbeatTimer := Some (next_handle s)\<rparr>"
  by (simp add: startHeartbeat_def setInterval_def)

lemma lifecycle_inv_timers:
  "lifecycle_inv t \<Longrightarrow>
   length (timeouts t) \<le> 1 \<and> length (intervals t) \<le> 1"
proof -
  assume inv: "lifecycle_inv t"
  show ?thesis
  proof (cases "exited t")
    case None
    with inv have "map fst (timeouts t) = (case reconnectTimer t of None \<Rightarrow> [] | Some h \<Rightarrow> [h])"
      and "map fst (intervals t) = (case heartbeatTimer t of None \<Rightarrow> [] | Some h \<Rightarrow> [h])"
      by (simp_all add: lifecycle_inv_def live_inv_def)
    then have "length (map fst (timeouts t)) \<le> 1" and "length (map fst (intervals t)) \<le> 1"
      by (simp_all split: option.splits)
    then show ?thesis by simp
  next
    case (Some c)
    with inv show ?thesis by (simp add: lifecycle_inv_def)
  qed
qed

lemma reachable_inv:
  "constructor u opts env = Inr b \<Longrightarrow> run parse es (start throws b) = Some t \<Longrightarrow> lifecycle_inv t"
  using inv_start inv_run by blast

text \<open>
  Claim C3, as stated: \<open>startHeartbeat\<close> called while a heartbeat timer is armed does
  nothing. It fails on \<open>open_bridge\<close>, where timer \<open>0\<close> is armed: the call arms timer
  \<open>1\<close> beside it and changes the bridge, and \<open>stopHeartbeat\<close> afterwards cancels
  timer \<open>1\<close> only.
\<close>

theorem startHeartbeat_rearm_counterexample:
  "run parse_stub [WsOpen] (start False (fresh_bridge False)) = Some open_bridge \<and>
   heartbeatTimer open_bridge = Some 0 \<and>
   intervals open_bridge = [(0, 30000)] \<and>
   intervals (startHeartbeat open_bridge) = [(0, 30000), (1, 30000)] \<and>
   startHeartbeat open_bridge \<noteq> open_bridge \<and>
   intervals (stopHeartbeat (startHeartbeat open_bridge)) = [(0, 30000)]"
proof -
  have "intervals (startHeartbeat open_bridge) = [(0, 30000), (1, 30000)]"
    by (simp add: startHeartbeat_eq open_bridge_def fresh_bridge_def)
  moreover from this have "startHeartbeat open_bridge \<noteq> open_bridge"
    by (auto simp: open_bridge_def)
  moreover have "intervals (stopHeartbeat (startHeartbeat open_bridge)) = [(0, 30000)]"
    by (simp add: stopHeartbeat_def clearInterval_def startHeartbeat_eq open_bridge_def
          fresh_bridge_def)
  ultimately show ?thesis
    using open_bridge_reachable by (simp add: open_bridge_def)
qed

text \<open>
  Claim C3, amended. \<open>startHeartbeat\<close> has no guard: every call creates a new interval
  timer and stores its handle. Called with no heartbeat timer armed it leaves exactly one,
  which \<open>stopHeartbeat\<close> cancels. In every run of the event loop from \<open>start\<close>, where
  \<open>startHeartbeat\<close> runs only in the \<open>open\<close> handler of a connecting socket, at most one
  heartbeat timer exists at any time, and none when \<open>heartbeatTimer\<close> is \<open>null\<close>.
\<close>

theorem heartbeat_timer_single_in_runs:
  "intervals (startHeartbeat s) =
     intervals s @ [(next_handle s, heartbeatInterval (options s))] \<and>
   heartbeatTimer (startHeartbeat s) = Some (next_handle s) \<and>
   (heartbeatTimer s = None \<and> intervals s = [] \<longrightarrow>
      length (intervals (startHeartbeat s)) = 1 \<and>
      intervals (stopHeartbeat (startHeartbeat s)) = [] \<and>
      heartbeatTimer (stopHeartbeat (startHeartbeat s)) = None) \<and>
   (constructor u opts env = Inr b \<and> run parse es (start throws b) = Some t \<longrightarrow>
      length (intervals t) \<le> 1 \<and> (heartbeatTimer t = None \<longrightarrow> intervals t = []))"
proof -
  have "length (intervals t) \<le> 1 \<and> (heartbeatTimer t = None \<longrightarrow> intervals t = [])"
    if "constructor u opts env = Inr b" and "run parse es (start throws b) = Some t"
  proof -
    from that have inv: "lifecycle_inv t" by (rule reachable_inv)
    then have "length (intervals t) \<le> 1" using lifecycle_inv_timers by blast
    moreover from inv have "intervals t = []" if "heartbeatTimer t = None"
      using that by (cases "exited t") (simp_all add: lifecycle_inv_def live_inv_def)
    ultimately show ?thesis by simp
  qed
  then show ?thesis
    by (simp add: startHeartbeat_eq stopHeartbeat_def clearInterval_def)
qed

theorem heartbeat_timer_single_in_runs_witness:
  "constructor ''ws://localhost:9999/mcp'' (cli_options None (Some False)) no_env
     = Inr (fresh_bridge False) \<and>
   run parse_stub [WsOpen] (start False (fresh_bridge False)) = Some open_bridge \<and>
   length (intervals open_bridge) \<le> 1 \<and>
   intervals (startHeartbeat (fresh_bridge False)) = [(0, 30000)] \<and>
   intervals (stopHeartbeat (startHeartbeat (fresh_bridge False))) = []"
  using heartbeat_timer_single_in_runs[of "fresh_bridge False" "''ws://localhost:9999/mcp''"
      "cli_options None (Some False)" no_env "fresh_bridge False" parse_stub "[WsOpen]" False
      open_bridge]
    constructor_fresh[of False] open_bridge_reachable
  by (simp add: fresh_bridge_def)

section \<open>Relaying to the socket\<close>

lemma connecting_bridge_start: "start False (fresh_bridge False) = connecting_bridge"
  by (simp add: start_def setupStdioHandler_def connect_def
        fresh_bridge_def connecting_bridge_def log_msg_def emit_def)

lemma log_msg_queue_update [simp]:
  "log_msg l m (s\<lparr>messageQueue := q\<rparr>) = (log_msg l m s)\<lparr>messageQueue := q\<rparr>"
  by (simp add: log_msg_def)

lemma sendToWebSocket_open:
  "isConnected s \<Longrightarrow> ws s = Some OPEN \<Longrightarrow> sendToWebSocket m s = emit (WsSend m) s"
  by (simp add: sendToWebSocket_def)

lemma sendToWebSocket_not_open:
  "\<not> isConnected s \<or> ws s \<noteq> Some OPEN \<Longrightarrow>
   sendToWebSocket m s =
     (log_msg LWarn ''WebSocket not connected, queuing message'' s)\<lparr>
        messageQueue := messageQueue s @ [m]\<rparr>"
  by (auto simp: sendToWebSocket_def Let_def)

text \<open>
  Claim C4. \<open>sendToWebSocket\<close> appends the message to the queue if and only if the
  bridge is not connected or the socket cannot be written to (it is absent or its
  \<open>readyState\<close> is not \<open>OPEN\<close>); otherwise the message is written to the socket at once
  and the queue is left alone. A message that is queued is not written.
\<close>

theorem sendToWebSocket_enqueues_iff:
  "(messageQueue (sendToWebSocket m s) = messageQueue s @ [m])
     = (\<not> isConnected s \<or> ws s \<noteq> Some OPEN) \<and>
   (if isConnected s \<and> ws s = Some OPEN
    then effects (sendToWebSocket m s) = effects s @ [WsSend m] \<and>
         messageQueue (sendToWebSocket m s) = messageQueue s
    else ws_sent (effects (sendToWebSocket m s)) = ws_sent (effects s))"
proof (cases "isConnected s \<and> ws s = Some OPEN")
  case True
  then show ?thesis by (simp add: sendToWebSocket_open)
next
  case False
  then have "\<not> isConnected s \<or> ws s \<noteq> Some OPEN" by simp
  from sendToWebSocket_not_open[OF this] False show ?thesis by simp
qed

theorem sendToWebSocket_enqueues_iff_witness:
  "messageQueue (sendToWebSocket ''3'' closing_bridge) = [''1'', ''2'', ''3''] \<and>
   effects (sendToWebSocket ''3'' closing_bridge) = effects closing_bridge \<and>
   messageQueue (sendToWebSocket ''3'' open_bridge) = [] \<and>
   effects (sendToWebSocket ''3'' open_bridge) = effects open_bridge @ [WsSend ''3'']"
  using sendToWebSocket_enqueues_iff[of "''3''" closing_bridge]
    sendToWebSocket_enqueues_iff[of "''3''" open_bridge]
  by (simp add: closing_bridge_def open_bridge_def fresh_bridge_def sendToWebSocket_def
        log_msg_def)

text \<open>
  Claim C5. Messages \<open>A\<close>, \<open>B\<close>, \<open>C\<close> submitted in that order while the bridge is not
  connected are queued in that order; when the socket then opens, the \<open>open\<close> handler
  returns, everything queued has been written to the socket in queue order, \<open>A\<close>, \<open>B\<close>,
  \<open>C\<close> last and in that order, and the queue is empty.
\<close>

theorem queued_messages_sent_in_order:
  assumes "\<not> isConnected s"
  shows "messageQueue (sendToWebSocket C (sendToWebSocket B (sendToWebSocket A s)))
           = messageQueue s @ [A, B, C] \<and>
         (\<exists>s'. handle parse WsOpen (sendToWebSocket C (sendToWebSocket B (sendToWebSocket A s)))
                 = Some s' \<and>
               isConnected s' \<and> ws s' = Some OPEN \<and>
               ws_sent (effects s') = ws_sent (effects s) @ messageQueue s @ [A, B, C] \<and>
               messageQueue s' = [])"
proof -
  let ?s3 = "sendToWebSocket C (sendToWebSocket B (sendToWebSocket A s))"
  have s3: "?s3 = (log_msg LWarn ''WebSocket not connected, queuing message''
                    (log_msg LWarn ''WebSocket not connected, queuing message''
                      (log_msg LWarn ''WebSocket not connected, queuing message'' s)))\<lparr>
                   messageQueue := messageQueue s @ [A, B, C]\<rparr>"
    using assms by (simp add: sendToWebSocket_not_open)
  show ?thesis
    by (simp add: s3 ws_on_open_open)
qed

theorem queued_messages_sent_in_order_witness:
  "\<not> isConnected connecting_bridge \<and>
   run parse_stub [Line ''1'', Line ''2'', Line ''3'', WsOpen] connecting_bridge
     = Some (open_bridge\<lparr>effects := effects open_bridge @ [WsSend ''1'', WsSend ''2'', WsSend ''3'']\<rparr>)"
proof -
  have n: "\<not> isConnected connecting_bridge"
    by (simp add: connecting_bridge_def fresh_bridge_def)
  from queued_messages_sent_in_order
         [OF n, where A = "''1''" and B = "''2''" and C = "''3''" and parse = parse_stub]
  show ?thesis
    by (simp add: n rl_on_line_def parse_stub_def connecting_bridge_def fresh_bridge_def
        open_bridge_def sendToWebSocket_def log_msg_def ws_on_open_open drain_effects_def)
qed

section \<open>No message is lost\<close>

lemma outbound_log_msg [simp]: "outbound (log_msg l m s) = outbound s"
  by (simp add: outbound_def)

lemma outbound_rl_closed [simp]: "outbound (s\<lparr>rl_closed := b\<rparr>) = outbound s"
  by (simp add: outbound_def)

lemma outbound_shutdown: "outbound (shutdown s) = outbound s"
  by (simp add: outbound_def shutdown_fields)

lemma outbound_line:
  "isConnected s \<and> ws s = Some OPEN \<longrightarrow> messageQueue s = [] \<Longrightarrow>
   outbound (rl_on_line parse l s) = outbound s @ accepted parse [Line l]"
  by (cases "isConnected s \<and> ws s = Some OPEN")
     (auto simp: outbound_def rl_on_line_def sendToWebSocket_open sendToWebSocket_not_open
        split: option.splits)

lemma outbound_open:
  "ws_on_open (s\<lparr>ws := Some OPEN\<rparr>) = Some s' \<Longrightarrow> outbound s' = outbound s"
  by (auto simp: ws_on_open_open outbound_def)

lemma outbound_message: "outbound (ws_on_message parse d s) = outbound s"
  by (simp add: outbound_def ws_on_message_def sendToStdout_def split: option.splits)

lemma outbound_close: "outbound (ws_on_close s) = outbound s"
  by (cases "reconnectTimer s"; cases "heartbeatTimer s")
     (simp_all add: outbound_def ws_on_close_def stopHeartbeat_def scheduleReconnect_def
        setTimeout_def clearInterval_def Let_def)

lemma outbound_fire: "outbound (reconnect_callback throws (clearTimeout h s)) = outbound s"
  by (simp add: outbound_def reconnect_callback_def connect_def scheduleReconnect_def
        setTimeout_def clearTimeout_def Let_def)

lemma outbound_tick: "outbound (heartbeat_tick s) = outbound s"
  by (simp add: outbound_def heartbeat_tick_def)

lemma outbound_handle:
  assumes "live_inv s" and "handle parse e s = Some s'"
  shows "outbound s' = outbound s @ accepted parse [e]"
proof (cases e)
  case (Line l)
  from assms(1) have "isConnected s \<and> ws s = Some OPEN \<longrightarrow> messageQueue s = []"
    by (simp add: live_inv_def)
  from outbound_line[OF this] Line assms(2) show ?thesis by auto
next
  case StdinClose
  with assms(2) show ?thesis by (auto simp: rl_on_close.simps outbound_shutdown)
next
  case SIGINT
  with assms(2) show ?thesis by (auto simp: on_SIGINT_def outbound_shutdown)
next
  case SIGTERM
  with assms(2) show ?thesis by (auto simp: on_SIGTERM_def outbound_shutdown)
next
  case WsOpen
  with assms(2) show ?thesis by (simp add: outbound_open)
next
  case (WsMessage d)
  with assms(2) show ?thesis by (auto simp: outbound_message)
next
  case WsError
  with assms(2) show ?thesis by (auto simp: ws_on_error_def)
next
  case WsClosing
  with assms(2) show ?thesis by (auto simp: outbound_def)
next
  case WsClose
  with assms(2) have "s' = ws_on_close (s\<lparr>ws := Some CLOSED\<rparr>)" by simp
  then show ?thesis using WsClose by (simp add: outbound_close) (simp add: outbound_def)
next
  case WsPong
  with assms(2) show ?thesis by (auto simp: ws_on_pong_def)
next
  case (ReconnectFire h throws)
  with assms(2) show ?thesis by (auto simp: outbound_fire)
next
  case (HeartbeatFire h)
  with assms(2) show ?thesis by (auto simp: outbound_tick)
qed

lemma accepted_Cons: "accepted parse (e # es) = accepted parse [e] @ accepted parse es"
  by (cases e) (simp_all split: option.splits)

lemma outbound_run:
  "lifecycle_inv s \<Longrightarrow> run parse es s = Some t \<Longrightarrow>
   outbound t = outbound s @ accepted parse es"
proof (induction es arbitrary: s)
  case Nil
  then show ?case by simp
next
  case (Cons e es)
  from Cons.prems(2) obtain s1 where en: "enabled e s" and h: "handle parse e s = Some s1"
    and r: "run parse es s1 = Some t"
    by (auto split: if_splits option.splits)
  from en have "exited s = None" by (rule enabled_not_exited)
  with Cons.prems(1) have live: "live_inv s" by (simp add: lifecycle_inv_def)
  then have "lifecycle_inv s1" using en h by (rule inv_handle)
  then have "outbound t = outbound s1 @ accepted parse es" using r by (rule Cons.IH)
  also have "outbound s1 = outbound s @ accepted parse [e]"
    using live h by (rule outbound_handle)
  finally show ?case by (simp add: accepted_Cons[of parse e es])
qed

text \<open>
  Claim C10. A message given to \<open>sendToWebSocket\<close> is either written to the socket or
  appended to the queue, exactly one of the two, in every state; when the connected flag
  is set but the socket is not open, it is queued. Along every run of the event loop from
  \<open>start\<close>, what was written to the socket followed by what waits in the queue is
  the sequence of the messages decoded from the input lines: none dropped, none twice, in
  the order of arrival.
\<close>

theorem no_outbound_message_dropped:
  "((ws_sent (effects (sendToWebSocket m s)) = ws_sent (effects s) @ [m] \<and>
     messageQueue (sendToWebSocket m s) = messageQueue s)
    \<noteq>
    (ws_sent (effects (sendToWebSocket m s)) = ws_sent (effects s) \<and>
     messageQueue (sendToWebSocket m s) = messageQueue s @ [m])) \<and>
   (isConnected s \<and> ws s \<noteq> Some OPEN \<longrightarrow>
      messageQueue (sendToWebSocket m s) = messageQueue s @ [m]) \<and>
   (constructor u opts env = Inr b \<and> run parse es (start throws b) = Some t \<longrightarrow>
      ws_sent (effects t) @ messageQueue t = accepted parse es)"
proof -
  have "ws_sent (effects t) @ messageQueue t = accepted parse es"
    if c: "constructor u opts env = Inr b" and r: "run parse es (start throws b) = Some t"
  proof -
    from c have "lifecycle_inv (start throws b)" by (rule inv_start)
    from outbound_run[OF this r] have "outbound t = outbound (start throws b) @ accepted parse es" .
    moreover from c have "outbound (start throws b) = []"
      by (auto simp: constructor_def outbound_def start_def setupStdioHandler_def
            connect_def scheduleReconnect_def
            setTimeout_def Let_def split: if_splits)
    ultimately show ?thesis by (simp add: outbound_def)
  qed
  moreover have "(ws_sent (effects (sendToWebSocket m s)) = ws_sent (effects s) @ [m] \<and>
     messageQueue (sendToWebSocket m s) = messageQueue s)
    \<noteq>
    (ws_sent (effects (sendToWebSocket m s)) = ws_sent (effects s) \<and>
     messageQueue (sendToWebSocket m s) = messageQueue s @ [m])"
    by (cases "isConnected s \<and> ws s = Some OPEN")
       (auto simp: sendToWebSocket_open sendToWebSocket_not_open)
  moreover have "isConnected s \<and> ws s \<noteq> Some OPEN \<longrightarrow>
      messageQueue (sendToWebSocket m s) = messageQueue s @ [m]"
    by (simp add: sendToWebSocket_not_open)
  ultimately show ?thesis by blast
qed

theorem no_outbound_message_dropped_witness:
  "constructor ''ws://localhost:9999/mcp'' (cli_options None (Some False)) no_env
     = Inr (fresh_bridge False) \<and>
   run parse_stub [WsOpen, WsClosing, Line ''1'', Line ''2''] (start False (fresh_bridge False))
     = Some closing_bridge \<and>
   ws_sent (effects closing_bridge) @ messageQueue closing_bridge = [''1'', ''2''] \<and>
   messageQueue (sendToWebSocket ''3'' closing_bridge) = [''1'', ''2'', ''3'']"
  using no_outbound_message_dropped[where s = closing_bridge and m = "''3''"
      and u = "''ws://localhost:9999/mcp''" and opts = "cli_options None (Some False)"
      and env = no_env and b = "fresh_bridge False" and parse = parse_stub
      and es = "[WsOpen, WsClosing, Line ''1'', Line ''2'']" and throws = False
      and t = closing_bridge]
    constructor_fresh[of False] closing_bridge_reachable
  by (simp add: closing_bridge_def fresh_bridge_def parse_stub_def)

section \<open>The retry timer\<close>

lemma scheduleReconnect_idem: "scheduleReconnect (scheduleReconnect s) = scheduleReconnect s"
proof (cases "reconnectTimer s")
  case None
  then have "reconnectTimer (scheduleReconnect s) = Some (next_handle s)"
    by (simp add: scheduleReconnect_idle)
  then show ?thesis by (rule scheduleReconnect_pending)
next
  case (Some h)
  then show ?thesis by (simp add: scheduleReconnect_pending)
qed

lemma retrying_bridge_reachable:
  "run parse_stub [WsError, WsClose] (start False (fresh_bridge False)) = Some retrying_bridge"
  by (simp add: start_def setupStdioHandler_def connect_def
        emit_def fresh_bridge_def
        retrying_bridge_def ws_on_error_def ws_on_close_def stopHeartbeat_def
        scheduleReconnect_idle reconnect_timeout_def log_msg_def)

text \<open>
  Claim C6. \<open>scheduleReconnect\<close> called while a retry timer is pending does nothing, so
  two calls in a row do what one does: on a bridge with no timer they leave exactly one.
  In every run of the event loop from \<open>start\<close> at most one retry timer is pending at any
  time, and none when \<open>reconnectTimer\<close> is \<open>null\<close>.
\<close>

theorem single_reconnect_timer:
  "(reconnectTimer s \<noteq> None \<longrightarrow> scheduleReconnect s = s) \<and>
   scheduleReconnect (scheduleReconnect s) = scheduleReconnect s \<and>
   (reconnectTimer s = None \<and> timeouts s = [] \<longrightarrow>
      length (timeouts (scheduleReconnect (scheduleReconnect s))) = 1 \<and>
      reconnectTimer (scheduleReconnect (scheduleReconnect s)) = Some (next_handle s)) \<and>
   (constructor u opts env = Inr b \<and> run parse es (start throws b) = Some t \<longrightarrow>
      length (timeouts t) \<le> 1 \<and> (reconnectTimer t = None \<longrightarrow> timeouts t = []))"
proof -
  have "length (timeouts t) \<le> 1 \<and> (reconnectTimer t = None \<longrightarrow> timeouts t = [])"
    if "constructor u opts env = Inr b" and "run parse es (start throws b) = Some t"
  proof -
    from that have inv: "lifecycle_inv t" by (rule reachable_inv)
    then have "length (timeouts t) \<le> 1" using lifecycle_inv_timers by blast
    moreover from inv have "timeouts t = []" if "reconnectTimer t = None"
      using that by (cases "exited t") (simp_all add: lifecycle_inv_def live_inv_def)
    ultimately show ?thesis by simp
  qed
  moreover have "reconnectTimer s \<noteq> None \<longrightarrow> scheduleReconnect s = s"
    by (auto simp: scheduleReconnect_pending)
  moreover have "reconnectTimer s = None \<and> timeouts s = [] \<longrightarrow>
      length (timeouts (scheduleReconnect (scheduleReconnect s))) = 1 \<and>
      reconnectTimer (scheduleReconnect (scheduleReconnect s)) = Some (next_handle s)"
    by (simp add: scheduleReconnect_idem) (simp add: scheduleReconnect_idle)
  ultimately show ?thesis using scheduleReconnect_idem by blast
qed

theorem single_reconnect_timer_witness:
  "constructor ''ws://localhost:9999/mcp'' (cli_options None (Some False)) no_env
     = Inr (fresh_bridge False) \<and>
   run parse_stub [WsError, WsClose] (start False (fresh_bridge False)) = Some retrying_bridge \<and>
   reconnectTimer retrying_bridge = Some 0 \<and>
   length (timeouts retrying_bridge) \<le> 1 \<and>
   scheduleReconnect retrying_bridge = retrying_bridge"
proof -
  note inst = single_reconnect_timer[where s = retrying_bridge
      and u = "''ws://localhost:9999/mcp''" and opts = "cli_options None (Some False)"
      and env = no_env and b = "fresh_bridge False" and parse = parse_stub
      and es = "[WsError, WsClose]" and throws = False and t = retrying_bridge]
  have c: "constructor ''ws://localhost:9999/mcp'' (cli_options None (Some False)) no_env
     = Inr (fresh_bridge False)"
    by (rule constructor_fresh)
  have r: "run parse_stub [WsError, WsClose] (start False (fresh_bridge False))
     = Some retrying_bridge"
    by (rule retrying_bridge_reachable)
  have p: "reconnectTimer retrying_bridge = Some 0"
    by (simp add: retrying_bridge_def)
  from inst c r have "length (timeouts retrying_bridge) \<le> 1" by blast
  moreover from inst p have "scheduleReconnect retrying_bridge = retrying_bridge" by simp
  ultimately show ?thesis using c r p by simp
qed

section \<open>The attempt counter\<close>

lemma shutdown_exited: "exited s = None \<Longrightarrow> exited (shutdown s) = Some 0"
  by (simp add: shutdown_fields)

lemma shutdown_keeps:
  "options (shutdown s) = options s \<and> reconnectAttempts (shutdown s) = reconnectAttempts s"
  by (simp add: shutdown_fields)

lemma rl_on_line_keeps:
  "options (rl_on_line parse l s) = options s \<and>
   reconnectAttempts (rl_on_line parse l s) = reconnectAttempts s \<and>
   ws (rl_on_line parse l s) = ws s \<and>
   reconnectTimer (rl_on_line parse l s) = reconnectTimer s \<and>
   timeouts (rl_on_line parse l s) = timeouts s"
  by (simp add: rl_on_line_def sendToWebSocket_def Let_def split: option.splits)

lemma ws_on_message_keeps:
  "options (ws_on_message parse d s) = options s \<and>
   reconnectAttempts (ws_on_message parse d s) = reconnectAttempts s \<and>
   ws (ws_on_message parse d s) = ws s \<and>
   reconnectTimer (ws_on_message parse d s) = reconnectTimer s \<and>
   timeouts (ws_on_message parse d s) = timeouts s"
  by (simp add: ws_on_message_def sendToStdout_def split: option.splits)

lemma heartbeat_tick_keeps:
  "options (heartbeat_tick s) = options s \<and>
   reconnectAttempts (heartbeat_tick s) = reconnectAttempts s \<and>
   ws (heartbeat_tick s) = ws s \<and>
   reconnectTimer (heartbeat_tick s) = reconnectTimer s \<and>
   timeouts (heartbeat_tick s) = timeouts s"
  by (simp add: heartbeat_tick_def)

lemma ws_on_close_keeps:
  "options (ws_on_close s) = options s \<and> reconnectAttempts (ws_on_close s) = reconnectAttempts s"
  by (cases "reconnectTimer s"; cases "heartbeatTimer s")
     (simp_all add: ws_on_close_def stopHeartbeat_def scheduleReconnect_def
        setTimeout_def clearInterval_def Let_def)

lemma scheduleReconnect_keeps:
  "options (scheduleReconnect s) = options s \<and>
   reconnectAttempts (scheduleReconnect s) = reconnectAttempts s"
  by (cases "reconnectTimer s") (simp_all add: scheduleReconnect_idle scheduleReconnect_pending)

lemma reconnect_callback_keeps:
  "options (reconnect_callback throws s) = options s \<and>
   reconnectAttempts (reconnect_callback throws s) = Suc (reconnectAttempts s)"
  by (simp add: reconnect_callback_def connect_def scheduleReconnect_keeps)

lemma ws_on_open_resets:
  "ws_on_open (s\<lparr>ws := Some OPEN\<rparr>) =
     Some s' \<Longrightarrow>
   options s' = options s \<and> reconnectAttempts s' = 0 \<and> ws s' = Some OPEN \<and>
   reconnectTimer s' = reconnectTimer s \<and> timeouts s' = timeouts s \<and> exited s' = exited s"
  by (auto simp: ws_on_open_open)

lemma handle_options:
  "handle parse e s = Some s' \<Longrightarrow> options s' = options s"
  by (cases e)
     (auto simp: rl_on_line_keeps rl_on_close.simps on_SIGINT_def on_SIGTERM_def shutdown_keeps
        ws_on_message_keeps ws_on_error_def ws_on_pong_def ws_on_close_keeps heartbeat_tick_keeps
        reconnect_callback_keeps clearTimeout_def dest: ws_on_open_resets)

lemma run_options: "run parse es s = Some t \<Longrightarrow> options t = options s"
proof (induction es arbitrary: s)
  case Nil
  then show ?case by simp
next
  case (Cons e es)
  from Cons.prems obtain s1 where h: "handle parse e s = Some s1"
    and r: "run parse es s1 = Some t"
    by (auto split: if_splits option.splits)
  from Cons.IH[OF r] handle_options[OF h] show ?case by simp
qed

lemma start_options: "options (start throws s) = options s"
  by (simp add: start_def setupStdioHandler_def connect_def
        scheduleReconnect_keeps)

lemma handle_attempts:
  assumes "handle parse e s = Some s'"
  shows "reconnectAttempts s' =
           (case e of WsOpen \<Rightarrow> 0
            | ReconnectFire h throws \<Rightarrow> Suc (reconnectAttempts s)
            | _ \<Rightarrow> reconnectAttempts s)"
  using assms
  by (cases e)
     (auto simp: rl_on_line_keeps rl_on_close.simps on_SIGINT_def on_SIGTERM_def shutdown_keeps
        ws_on_message_keeps ws_on_error_def ws_on_pong_def ws_on_close_keeps heartbeat_tick_keeps
        reconnect_callback_keeps clearTimeout_def dest: ws_on_open_resets)

lemma connected_inv_step:
  assumes "connected_inv s" and "enabled e s" and "handle parse e s = Some s'"
    and "e \<noteq> WsClose"
  shows "connected_inv s' \<or> exited s' \<noteq> None"
proof (cases e)
  case (Line l)
  with assms show ?thesis
    by (auto simp: connected_inv_def rl_on_line_keeps exited_line)
next
  case StdinClose
  with assms show ?thesis by (auto simp: rl_on_close.simps shutdown_exited connected_inv_def)
next
  case SIGINT
  with assms show ?thesis by (auto simp: on_SIGINT_def shutdown_exited connected_inv_def)
next
  case SIGTERM
  with assms show ?thesis by (auto simp: on_SIGTERM_def shutdown_exited connected_inv_def)
next
  case WsOpen
  with assms show ?thesis by (auto simp: connected_inv_def)
next
  case (WsMessage d)
  with assms show ?thesis
    by (auto simp: connected_inv_def ws_on_message_keeps exited_message)
next
  case WsError
  with assms show ?thesis by (auto simp: connected_inv_def ws_on_error_def)
next
  case WsClosing
  with assms show ?thesis by (auto simp: connected_inv_def)
next
  case WsClose
  with assms show ?thesis by simp
next
  case WsPong
  with assms show ?thesis by (auto simp: connected_inv_def ws_on_pong_def)
next
  case (ReconnectFire h throws)
  with assms show ?thesis by (auto simp: connected_inv_def)
next
  case (HeartbeatFire h)
  with assms show ?thesis
    by (auto simp: connected_inv_def heartbeat_tick_keeps exited_tick)
qed

lemma run_exited: "exited s \<noteq> None \<Longrightarrow> run parse es s = Some t \<Longrightarrow> es = []"
  by (cases es) (auto simp: enabled_def)

lemma connected_until_close:
  "connected_inv s \<Longrightarrow> WsClose \<notin> set es \<Longrightarrow> run parse (es @ [WsClose]) s = Some t \<Longrightarrow>
   \<exists>s2. connected_inv s2 \<and> options s2 = options s \<and>
        t = ws_on_close (s2\<lparr>ws := Some CLOSED\<rparr>)"
proof (induction es arbitrary: s)
  case Nil
  then show ?case by (auto split: if_splits)
next
  case (Cons e es)
  from Cons.prems(3) obtain s1 where en: "enabled e s" and h: "handle parse e s = Some s1"
    and r: "run parse (es @ [WsClose]) s1 = Some t"
    by (auto split: if_splits option.splits)
  from Cons.prems(2) have ne: "e \<noteq> WsClose" and rest: "WsClose \<notin> set es" by auto
  from connected_inv_step[OF Cons.prems(1) en h ne] run_exited[OF _ r]
  have "connected_inv s1" by auto
  from Cons.IH[OF this rest r] handle_options[OF h] show ?case by auto
qed

lemma retried_bridge_reachable:
  "run parse_stub [WsClose, ReconnectFire 0 False, WsClose, ReconnectFire 1 False]
     (start False (fresh_bridge False)) = Some retried_bridge"
  by (simp add: start_def setupStdioHandler_def connect_def
        emit_def fresh_bridge_def retried_bridge_def
        ws_on_close_def stopHeartbeat_def scheduleReconnect_idle reconnect_timeout_def
        reconnect_callback_def clearTimeout_def log_msg_def)

lemma dropped_bridge_reachable:
  "run parse_stub (WsOpen # [Line ''1''] @ [WsClose]) retried_bridge = Some dropped_bridge"
  by (simp add: retried_bridge_def dropped_bridge_def fresh_bridge_def ws_on_open_open
        drain_effects_def rl_on_line_def parse_stub_def sendToWebSocket_def emit_def
        ws_on_close_def stopHeartbeat_def clearInterval_def scheduleReconnect_idle
        reconnect_timeout_def log_msg_def)

text \<open>
  Claim C7. The \<open>open\<close> handler returns and leaves the attempt counter at 0; the retry
  callback adds one to it; no other handler changes it. Hence in every run from \<open>start\<close>
  with the default configuration, whatever happened before a socket opens, the \<open>close\<close>
  event that follows the opening (whatever happens in between) schedules exactly one
  retry, with delay 1000.
\<close>

theorem attempt_counter_reset:
  "(\<exists>s'. handle parse WsOpen s = Some s' \<and> reconnectAttempts s' = 0) \<and>
   reconnectAttempts (reconnect_callback throws s) = Suc (reconnectAttempts s) \<and>
   (handle parse e s = Some sn \<longrightarrow>
      reconnectAttempts sn =
        (case e of WsOpen \<Rightarrow> 0
         | ReconnectFire h throws \<Rightarrow> Suc (reconnectAttempts s)
         | _ \<Rightarrow> reconnectAttempts s)) \<and>
   (constructor u opts env = Inr b \<and> o_reconnectInterval opts = None \<and>
    o_maxReconnectInterval opts = None \<and> o_reconnectDecay opts = None \<and>
    run parse pre (start thr b) = Some sc \<and>
    run parse (WsOpen # es @ [WsClose]) sc = Some t \<and> WsClose \<notin> set es \<longrightarrow>
      map snd (timeouts t) = [1000])"
proof -
  have open_ok: "\<exists>s'. handle parse WsOpen s = Some s' \<and> reconnectAttempts s' = 0"
    by (simp add: ws_on_open_open)
  have "map snd (timeouts t) = [1000]"
    if c: "constructor u opts env = Inr b" and o: "o_reconnectInterval opts = None"
      "o_maxReconnectInterval opts = None" "o_reconnectDecay opts = None"
      and r0: "run parse pre (start thr b) = Some sc"
      and r: "run parse (WsOpen # es @ [WsClose]) sc = Some t" and nc: "WsClose \<notin> set es"
  proof -
    from c r0 have inv: "lifecycle_inv sc" by (rule reachable_inv)
    from r obtain s1 where en: "enabled WsOpen sc" and h: "handle parse WsOpen sc = Some s1"
      and r1: "run parse (es @ [WsClose]) s1 = Some t"
      by (auto split: if_splits option.splits)
    from en have ex: "exited sc = None" and cg: "ws sc = Some CONNECTING" by simp_all
    with inv have "live_inv sc" by (simp add: lifecycle_inv_def)
    with cg have "reconnectTimer sc = None" and "timeouts sc = []"
      by (auto simp: live_inv_def)
    with h ex have "connected_inv s1"
      by (auto simp: connected_inv_def dest: ws_on_open_resets)
    from connected_until_close[OF this nc r1] obtain s2 where s2: "connected_inv s2"
      "options s2 = options s1" "t = ws_on_close (s2\<lparr>ws := Some CLOSED\<rparr>)"
      by blast
    have "options s2 = options b"
      using s2(2) handle_options[OF h] run_options[OF r0] by (simp add: start_options)
    then have d: "reconnect_timeout (options s2) 0 = 1000"
      using constructor_defaults[OF c o, of 0] by simp
    from s2(1) have "timeouts t = [(next_handle s2, reconnect_timeout (options s2) 0)]"
      by (cases "heartbeatTimer s2")
         (simp_all add: s2(3) connected_inv_def ws_on_close_def stopHeartbeat_def
            clearInterval_def scheduleReconnect_idle)
    with d show ?thesis by simp
  qed
  with open_ok show ?thesis
    by (simp add: reconnect_callback_keeps handle_attempts)
qed

theorem attempt_counter_reset_witness:
  "constructor ''ws://localhost:9999/mcp'' (cli_options None (Some False)) no_env
     = Inr (fresh_bridge False) \<and>
   run parse_stub [WsClose, ReconnectFire 0 False, WsClose, ReconnectFire 1 False]
     (start False (fresh_bridge False)) = Some retried_bridge \<and>
   reconnectAttempts retried_bridge = 2 \<and>
   run parse_stub (WsOpen # [Line ''1''] @ [WsClose]) retried_bridge = Some dropped_bridge \<and>
   map snd (timeouts dropped_bridge) = [1000]"
proof -
  note inst = attempt_counter_reset[where u = "''ws://localhost:9999/mcp''"
      and opts = "cli_options None (Some False)" and env = no_env and b = "fresh_bridge False"
      and parse = parse_stub and thr = False and sc = retried_bridge and t = dropped_bridge
      and pre = "[WsClose, ReconnectFire 0 False, WsClose, ReconnectFire 1 False]"
      and es = "[Line ''1'']"]
  have c: "constructor ''ws://localhost:9999/mcp'' (cli_options None (Some False)) no_env
     = Inr (fresh_bridge False)"
    by (rule constructor_fresh)
  have o: "o_reconnectInterval (cli_options None (Some False)) = None"
    "o_maxReconnectInterval (cli_options None (Some False)) = None"
    "o_reconnectDecay (cli_options None (Some False)) = None"
    by (simp_all add: cli_options_def)
  have n: "WsClose \<notin> set [Line ''1'']" by simp
  from inst c o n retried_bridge_reachable dropped_bridge_reachable
  have "map snd (timeouts dropped_bridge) = [1000]" by blast
  then show ?thesis
    using c retried_bridge_reachable dropped_bridge_reachable
    by (simp add: retried_bridge_def)
qed

section \<open>Shutdown\<close>

lemma not_in_filtered: "h \<notin> fst ` set (filter (\<lambda>t. fst t \<noteq> h) xs)"
  by auto

lemma shutdown_rl_closed: "rl_closed (shutdown s)"
  by (cases "rl_closed s"; cases "stdio_handlers s")
     (simp_all add: shutdown_closed shutdown_unhandled shutdown_reentered)

lemma shutdown_effects:
  assumes "exited s = None"
  shows "effects (shutdown s) =
     effects s
     @ (if debug (options s) then [ConsoleError LInfo ''Shutting down bridge''] else [])
     @ (if ws s = None then [] else [WsCloseCall]) @ [RlClose]
     @ (if \<not> rl_closed s \<and> stdio_handlers s
        then (if debug (options s)
              then [ConsoleError LInfo ''Stdin closed, shutting down'',
                    ConsoleError LInfo ''Shutting down bridge'']
              else [])
             @ (if ws s = None then [] else [WsCloseCall]) @ [RlClose]
        else [])
     @ [ProcessExit 0]"
proof (cases "rl_closed s")
  case True
  with assms show ?thesis
    by (simp add: shutdown_closed log_msg_def)
next
  case False
  show ?thesis
  proof (cases "stdio_handlers s")
    case False
    with \<open>\<not> rl_closed s\<close> assms show ?thesis
      by (simp add: shutdown_unhandled log_msg_def)
  next
    case True
    with \<open>\<not> rl_closed s\<close> assms show ?thesis
      by (cases "debug (options s)") (simp_all add: shutdown_reentered log_msg_def)
  qed
qed

text \<open>In a run from \<open>start\<close> the handlers are registered, and the reader is open as long
  as the process runs.\<close>

lemma reader_step:
  assumes "stdio_handlers s \<and> \<not> rl_closed s" and "exited s = None"
    and "handle parse e s = Some s'" and "exited s' = None"
  shows "stdio_handlers s' \<and> \<not> rl_closed s'"
proof (cases e)
  case (Line l)
  have "stdio_handlers (rl_on_line parse l s) = stdio_handlers s \<and>
        rl_closed (rl_on_line parse l s) = rl_closed s"
    by (simp add: rl_on_line_def sendToWebSocket_def Let_def split: option.splits)
  with Line assms show ?thesis by auto
next
  case StdinClose
  with assms(3) have "s' = shutdown (log_msg LInfo ''Stdin closed, shutting down''
                                    (s\<lparr>rl_closed := True\<rparr>))"
    by (simp add: rl_on_close.simps)
  then have "exited s' = Some 0" using assms(2) by (simp add: shutdown_fields)
  with assms(4) show ?thesis by simp
next
  case SIGINT
  with assms(3) have "s' = shutdown (log_msg LInfo ''Received SIGINT, shutting down'' s)"
    by (simp add: on_SIGINT_def)
  then have "exited s' = Some 0" using assms(2) by (simp add: shutdown_fields)
  with assms(4) show ?thesis by simp
next
  case SIGTERM
  with assms(3) have "s' = shutdown (log_msg LInfo ''Received SIGTERM, shutting down'' s)"
    by (simp add: on_SIGTERM_def)
  then have "exited s' = Some 0" using assms(2) by (simp add: shutdown_fields)
  with assms(4) show ?thesis by simp
next
  case WsOpen
  with assms show ?thesis by (auto simp: ws_on_open_open)
next
  case (WsMessage d)
  with assms show ?thesis
    by (auto simp: ws_on_message_def sendToStdout_def split: option.splits)
next
  case WsError
  with assms show ?thesis by (auto simp: ws_on_error_def)
next
  case WsClosing
  with assms show ?thesis by auto
next
  case WsClose
  with assms show ?thesis
    by (cases "reconnectTimer s"; cases "heartbeatTimer s")
       (auto simp: ws_on_close_def stopHeartbeat_def clearInterval_def scheduleReconnect_idle
          scheduleReconnect_pending)
next
  case WsPong
  with assms show ?thesis by (auto simp: ws_on_pong_def)
next
  case (ReconnectFire h throws)
  with assms show ?thesis
    by (cases throws)
       (auto simp: reconnect_callback_def connect_def clearTimeout_def scheduleReconnect_idle)
next
  case (HeartbeatFire h)
  with assms show ?thesis by (auto simp: heartbeat_tick_def split: if_splits)
qed

lemma reader_run:
  "stdio_handlers s \<and> \<not> rl_closed s \<Longrightarrow> run parse es s = Some t \<Longrightarrow> exited t = None \<Longrightarrow>
   stdio_handlers t \<and> \<not> rl_closed t"
proof (induction es arbitrary: s)
  case Nil
  then show ?case by simp
next
  case (Cons e es)
  from Cons.prems(2) obtain s1 where en: "enabled e s" and h: "handle parse e s = Some s1"
    and r: "run parse es s1 = Some t"
    by (auto split: if_splits option.splits)
  from en have x: "exited s = None" by (rule enabled_not_exited)
  have "exited s1 = None"
  proof (cases es)
    case Nil
    with r Cons.prems(3) show ?thesis by simp
  next
    case (Cons e' es')
    with r have "enabled e' s1" by (auto split: if_splits)
    then show ?thesis by (rule enabled_not_exited)
  qed
  with Cons.prems(1) x h have "stdio_handlers s1 \<and> \<not> rl_closed s1" by (rule reader_step)
  from Cons.IH[OF this r Cons.prems(3)] show ?case .
qed

lemma reader_start:
  "stdio_handlers (start throws s) \<and> rl_closed (start throws s) = rl_closed s"
  by (cases throws; cases "reconnectTimer s")
     (simp_all add: start_def setupStdioHandler_def connect_def scheduleReconnect_idle
        scheduleReconnect_pending)

text \<open>
  Claim C8. From every state of a running process \<open>shutdown\<close> cancels the timer held in
  \<open>reconnectTimer\<close> and the timer held in \<open>heartbeatTimer\<close>, then closes the socket if
  there is one, closes the line reader and exits the process with status 0. When the
  reader was open and its handlers registered, the reader's \<open>close\<close> handler runs inside
  \<open>rl.close()\<close> and goes through \<open>shutdown\<close> once more before the exit, which closes the
  socket and the reader a second time and changes nothing else. Afterwards no event is
  enabled: no retry fires, no heartbeat probe is sent. When \<open>shutdown\<close> runs in a state
  that a run from \<open>start\<close> reaches, no timer at all is left, and the effects are those of
  the re-entered shutdown.
\<close>

theorem shutdown_cancels_timers:
  "exited s = None \<longrightarrow>
     exited (shutdown s) = Some 0 \<and>
     heartbeatTimer (shutdown s) = None \<and>
     (\<forall>h. reconnectTimer s = Some h \<longrightarrow> h \<notin> fst ` set (timeouts (shutdown s))) \<and>
     (\<forall>h. heartbeatTimer s = Some h \<longrightarrow> h \<notin> fst ` set (intervals (shutdown s))) \<and>
     rl_closed (shutdown s) \<and>
     effects (shutdown s) =
       effects s
       @ (if debug (options s) then [ConsoleError LInfo ''Shutting down bridge''] else [])
       @ (if ws s = None then [] else [WsCloseCall]) @ [RlClose]
       @ (if \<not> rl_closed s \<and> stdio_handlers s
          then (if debug (options s)
                then [ConsoleError LInfo ''Stdin closed, shutting down'',
                      ConsoleError LInfo ''Shutting down bridge'']
                else [])
               @ (if ws s = None then [] else [WsCloseCall]) @ [RlClose]
          else [])
       @ [ProcessExit 0] \<and>
     (\<forall>e. \<not> enabled e (shutdown s)) \<and>
     (\<forall>e es. run parse (e # es) (shutdown s) = None) \<and>
     (constructor u opts env = Inr b \<and> run parse pre (start thr b) = Some s \<longrightarrow>
        timeouts (shutdown s) = [] \<and> intervals (shutdown s) = [] \<and>
        effects (shutdown s) =
          effects s
          @ (if debug (options s) then [ConsoleError LInfo ''Shutting down bridge''] else [])
          @ (if ws s = None then [] else [WsCloseCall]) @ [RlClose]
          @ (if debug (options s)
             then [ConsoleError LInfo ''Stdin closed, shutting down'',
                   ConsoleError LInfo ''Shutting down bridge'']
             else [])
          @ (if ws s = None then [] else [WsCloseCall]) @ [RlClose, ProcessExit 0])"
proof (intro impI)
  assume x: "exited s = None"
  have ex: "exited (shutdown s) = Some 0"
    using x by (simp add: shutdown_fields)
  have hb: "heartbeatTimer (shutdown s) = None"
    by (simp add: shutdown_fields)
  have rt: "\<forall>h. reconnectTimer s = Some h \<longrightarrow> h \<notin> fst ` set (timeouts (shutdown s))"
    by (simp add: shutdown_fields not_in_filtered del: set_filter)
  have ht: "\<forall>h. heartbeatTimer s = Some h \<longrightarrow> h \<notin> fst ` set (intervals (shutdown s))"
    by (simp add: shutdown_fields not_in_filtered del: set_filter)
  note rc = shutdown_rl_closed[of s]
  note ef = shutdown_effects[OF x]
  have en: "\<forall>e. \<not> enabled e (shutdown s)"
    using ex by (simp add: enabled_def)
  then have rn: "\<forall>e es. run parse (e # es) (shutdown s) = None"
    by simp
  have reach: "timeouts (shutdown s) = [] \<and> intervals (shutdown s) = [] \<and>
        effects (shutdown s) =
          effects s
          @ (if debug (options s) then [ConsoleError LInfo ''Shutting down bridge''] else [])
          @ (if ws s = None then [] else [WsCloseCall]) @ [RlClose]
          @ (if debug (options s)
             then [ConsoleError LInfo ''Stdin closed, shutting down'',
                   ConsoleError LInfo ''Shutting down bridge'']
             else [])
          @ (if ws s = None then [] else [WsCloseCall]) @ [RlClose, ProcessExit 0]"
    if c: "constructor u opts env = Inr b" and r: "run parse pre (start thr b) = Some s"
  proof -
    from c r have "lifecycle_inv s" by (rule reachable_inv)
    with x have "live_inv s" by (simp add: lifecycle_inv_def)
    from inv_shutdown[OF this x]
    have t: "timeouts (shutdown s) = [] \<and> intervals (shutdown s) = []"
      by simp
    from c have "\<not> rl_closed b" by (auto simp: constructor_def split: if_splits)
    then have "stdio_handlers (start thr b) \<and> \<not> rl_closed (start thr b)"
      by (simp add: reader_start)
    from reader_run[OF this r x] have "stdio_handlers s \<and> \<not> rl_closed s" .
    with ef t show ?thesis by simp
  qed
  from ex hb rt ht rc ef en rn reach
  show "exited (shutdown s) = Some 0 \<and>
     heartbeatTimer (shutdown s) = None \<and>
     (\<forall>h. reconnectTimer s = Some h \<longrightarrow> h \<notin> fst ` set (timeouts (shutdown s))) \<and>
     (\<forall>h. heartbeatTimer s = Some h \<longrightarrow> h \<notin> fst ` set (intervals (shutdown s))) \<and>
     rl_closed (shutdown s) \<and>
     effects (shutdown s) =
       effects s
       @ (if debug (options s) then [ConsoleError LInfo ''Shutting down bridge''] else [])
       @ (if ws s = None then [] else [WsCloseCall]) @ [RlClose]
       @ (if \<not> rl_closed s \<and> stdio_handlers s
          then (if debug (options s)
                then [ConsoleError LInfo ''Stdin closed, shutting down'',
                      ConsoleError LInfo ''Shutting down bridge'']
                else [])
               @ (if ws s = None then [] else [WsCloseCall]) @ [RlClose]
          else [])
       @ [ProcessExit 0] \<and>
     (\<forall>e. \<not> enabled e (shutdown s)) \<and>
     (\<forall>e es. run parse (e # es) (shutdown s) = None) \<and>
     (constructor u opts env = Inr b \<and> run parse pre (start thr b) = Some s \<longrightarrow>
        timeouts (shutdown s) = [] \<and> intervals (shutdown s) = [] \<and>
        effects (shutdown s) =
          effects s
          @ (if debug (options s) then [ConsoleError LInfo ''Shutting down bridge''] else [])
          @ (if ws s = None then [] else [WsCloseCall]) @ [RlClose]
          @ (if debug (options s)
             then [ConsoleError LInfo ''Stdin closed, shutting down'',
                   ConsoleError LInfo ''Shutting down bridge'']
             else [])
          @ (if ws s = None then [] else [WsCloseCall]) @ [RlClose, ProcessExit 0])"
    by blast
qed

theorem shutdown_cancels_timers_witness:
  "constructor ''ws://localhost:9999/mcp'' (cli_options None (Some False)) no_env
     = Inr (fresh_bridge False) \<and>
   run parse_stub [WsOpen] (start False (fresh_bridge False)) = Some open_bridge \<and>
   exited open_bridge = None \<and>
   timeouts (shutdown open_bridge) = [] \<and> intervals (shutdown open_bridge) = [] \<and>
   effects (shutdown open_bridge) =
     [WsNew ''ws://localhost:9999/mcp'' None,
      WsCloseCall, RlClose, WsCloseCall, RlClose, ProcessExit 0] \<and>
   exited (shutdown open_bridge) = Some 0 \<and>
   run parse_stub [HeartbeatFire 0] (shutdown open_bridge) = None \<and>
   run parse_stub [SIGTERM] open_bridge = Some (shutdown open_bridge) \<and>
   reconnectTimer armed_bridge = Some 1 \<and> heartbeatTimer armed_bridge = Some 0 \<and>
   exited armed_bridge = None \<and>
   1 \<notin> fst ` set (timeouts (shutdown armed_bridge)) \<and>
   0 \<notin> fst ` set (intervals (shutdown armed_bridge)) \<and>
   effects (shutdown (fresh_bridge True)) =
     [ConsoleError LInfo ''Shutting down bridge'', RlClose, ProcessExit 0]"
proof -
  note inst = shutdown_cancels_timers[where s = open_bridge
      and u = "''ws://localhost:9999/mcp''" and opts = "cli_options None (Some False)"
      and env = no_env and b = "fresh_bridge False" and parse = parse_stub
      and pre = "[WsOpen]" and thr = False]
  have c: "constructor ''ws://localhost:9999/mcp'' (cli_options None (Some False)) no_env
     = Inr (fresh_bridge False)"
    by (rule constructor_fresh)
  have x: "exited open_bridge = None" by (simp add: open_bridge_def fresh_bridge_def)
  have xa: "exited armed_bridge = None"
    by (simp add: armed_bridge_def open_bridge_def fresh_bridge_def)
  have xf: "exited (fresh_bridge True) = None" by (simp add: fresh_bridge_def)
  from inst x c open_bridge_reachable
  have "timeouts (shutdown open_bridge) = [] \<and> intervals (shutdown open_bridge) = []" by blast
  moreover from inst x have "run parse_stub [HeartbeatFire 0] (shutdown open_bridge) = None"
    by blast
  moreover from inst x have "effects (shutdown open_bridge) =
     [WsNew ''ws://localhost:9999/mcp'' None,
      WsCloseCall, RlClose, WsCloseCall, RlClose, ProcessExit 0]"
    by (simp add: open_bridge_def fresh_bridge_def)
  moreover from inst x have "exited (shutdown open_bridge) = Some 0" by blast
  moreover have "run parse_stub [SIGTERM] open_bridge = Some (shutdown open_bridge)"
    using x by (simp add: on_SIGTERM_def log_msg_def open_bridge_def fresh_bridge_def)
  moreover have "1 \<notin> fst ` set (timeouts (shutdown armed_bridge)) \<and>
      0 \<notin> fst ` set (intervals (shutdown armed_bridge))"
    using shutdown_cancels_timers[where s = armed_bridge] xa
    by (simp add: armed_bridge_def open_bridge_def)
  moreover have "reconnectTimer armed_bridge = Some 1 \<and> heartbeatTimer armed_bridge = Some 0"
    by (simp add: armed_bridge_def open_bridge_def)
  moreover have "effects (shutdown (fresh_bridge True)) =
     [ConsoleError LInfo ''Shutting down bridge'', RlClose, ProcessExit 0]"
    using shutdown_cancels_timers[where s = "fresh_bridge True"] xf
    by (simp add: fresh_bridge_def)
  ultimately show ?thesis using c open_bridge_reachable x xa by simp
qed

section \<open>Malformed input\<close>

lemma count_log_msg:
  "count_list (effects (log_msg l m s)) x =
     count_list (effects s) x + (if debug (options s) \<and> x = ConsoleError l m then 1 else 0)"
  by (simp add: log_msg_def)

lemma rl_on_line_malformed:
  "parse l = None \<Longrightarrow> rl_on_line parse l s = log_msg LError ''Failed to parse stdin message:'' s"
  by (simp add: rl_on_line_def)

lemma rl_on_line_wellformed:
  "parse l = Some m \<Longrightarrow>
   rl_on_line parse l s = sendToWebSocket m (log_msg LDebug ''Received from stdin:'' s)"
  by (simp add: rl_on_line_def)

lemma count_parse_failed_send:
  "count_list (effects (sendToWebSocket m s)) parse_failed = count_list (effects s) parse_failed"
  by (cases "isConnected s \<and> ws s = Some OPEN")
     (auto simp: sendToWebSocket_open sendToWebSocket_not_open parse_failed_def count_log_msg)

text \<open>
  Claim C9, as stated: a line that does not parse is logged and discarded, so that such a
  line followed by a well-formed one yields exactly one log line for the discarded frame.
  It fails on \<open>open_bridge\<close>, the connected bridge started without \<open>--debug\<close>: the
  handler leaves the bridge as it is, and after both lines the effects hold the relayed
  message and no such log line.
\<close>

theorem malformed_line_counterexample:
  "parse_stub ''{ invalid json }'' = None \<and> parse_stub ''1'' = Some ''1'' \<and>
   run parse_stub [WsOpen] (start False (fresh_bridge False)) = Some open_bridge \<and>
   rl_on_line parse_stub ''{ invalid json }'' open_bridge = open_bridge \<and>
   run parse_stub [Line ''{ invalid json }'', Line ''1''] open_bridge
     = Some (open_bridge\<lparr>effects := effects open_bridge @ [WsSend ''1'']\<rparr>) \<and>
   count_list (effects open_bridge @ [WsSend ''1'']) parse_failed = 0"
  using open_bridge_reachable
  by (simp add: parse_stub_def rl_on_line_def open_bridge_def fresh_bridge_def log_msg_def
        sendToWebSocket_def emit_def parse_failed_def)

text \<open>
  Claim C9, amended. A line that does not parse is discarded: the handler only calls
  \<open>log\<close>, which writes one error line when debug logging is enabled and nothing
  otherwise; the process does not exit, and the socket, the connected flag and the queue
  are untouched. A well-formed line after it is relayed as usual: written to the socket
  once when the bridge is connected and the socket open, queued once otherwise. The two
  lines together yield exactly one log line for the discarded frame when debug logging is
  enabled, none otherwise, and exactly one relay.
\<close>

theorem malformed_line_discarded:
  "parse bad = None \<and> parse good = Some m \<and> exited s = None \<longrightarrow>
     rl_on_line parse bad s = log_msg LError ''Failed to parse stdin message:'' s \<and>
     effects (rl_on_line parse bad s) =
       effects s @ (if debug (options s) then [parse_failed] else []) \<and>
     exited (rl_on_line parse bad s) = None \<and>
     ws (rl_on_line parse bad s) = ws s \<and>
     isConnected (rl_on_line parse bad s) = isConnected s \<and>
     messageQueue (rl_on_line parse bad s) = messageQueue s \<and>
     (\<exists>t. run parse [Line bad, Line good] s = Some t \<and>
          exited t = None \<and>
          count_list (effects t) parse_failed =
            count_list (effects s) parse_failed + (if debug (options s) then 1 else 0) \<and>
          (if isConnected s \<and> ws s = Some OPEN
           then ws_sent (effects t) = ws_sent (effects s) @ [m] \<and>
                messageQueue t = messageQueue s
           else ws_sent (effects t) = ws_sent (effects s) \<and>
                messageQueue t = messageQueue s @ [m]))"
proof (intro impI)
  assume a: "parse bad = None \<and> parse good = Some m \<and> exited s = None"
  let ?s1 = "log_msg LError ''Failed to parse stdin message:'' s"
  let ?t = "sendToWebSocket m (log_msg LDebug ''Received from stdin:'' ?s1)"
  have b: "rl_on_line parse bad s = ?s1"
    using a by (simp add: rl_on_line_malformed)
  have r: "run parse [Line bad, Line good] s = Some ?t"
    using a by (simp add: rl_on_line_malformed rl_on_line_wellformed)
  have x: "exited ?t = None"
    using a exited_line[of parse good ?s1] by (simp add: rl_on_line_wellformed)
  have n: "count_list (effects ?t) parse_failed =
            count_list (effects s) parse_failed + (if debug (options s) then 1 else 0)"
    by (simp add: count_parse_failed_send count_log_msg) (simp add: parse_failed_def)
  have d: "if isConnected s \<and> ws s = Some OPEN
           then ws_sent (effects ?t) = ws_sent (effects s) @ [m] \<and>
                messageQueue ?t = messageQueue s
           else ws_sent (effects ?t) = ws_sent (effects s) \<and>
                messageQueue ?t = messageQueue s @ [m]"
    by (cases "isConnected s \<and> ws s = Some OPEN")
       (auto simp: sendToWebSocket_open sendToWebSocket_not_open)
  have e: "effects ?s1 = effects s @ (if debug (options s) then [parse_failed] else [])"
    by (simp add: log_msg_def parse_failed_def)
  from r x n d have "\<exists>t. run parse [Line bad, Line good] s = Some t \<and>
          exited t = None \<and>
          count_list (effects t) parse_failed =
            count_list (effects s) parse_failed + (if debug (options s) then 1 else 0) \<and>
          (if isConnected s \<and> ws s = Some OPEN
           then ws_sent (effects t) = ws_sent (effects s) @ [m] \<and>
                messageQueue t = messageQueue s
           else ws_sent (effects t) = ws_sent (effects s) \<and>
                messageQueue t = messageQueue s @ [m])"
    by blast
  with b e a show "rl_on_line parse bad s = log_msg LError ''Failed to parse stdin message:'' s \<and>
     effects (rl_on_line parse bad s) =
       effects s @ (if debug (options s) then [parse_failed] else []) \<and>
     exited (rl_on_line parse bad s) = None \<and>
     ws (rl_on_line parse bad s) = ws s \<and>
     isConnected (rl_on_line parse bad s) = isConnected s \<and>
     messageQueue (rl_on_line parse bad s) = messageQueue s \<and>
     (\<exists>t. run parse [Line bad, Line good] s = Some t \<and>
          exited t = None \<and>
          count_list (effects t) parse_failed =
            count_list (effects s) parse_failed + (if debug (options s) then 1 else 0) \<and>
          (if isConnected s \<and> ws s = Some OPEN
           then ws_sent (effects t) = ws_sent (effects s) @ [m] \<and>
                messageQueue t = messageQueue s
           else ws_sent (effects t) = ws_sent (effects s) \<and>
                messageQueue t = messageQueue s @ [m]))"
    by simp
qed


theorem malformed_line_discarded_witness:
  "parse_stub ''{ invalid json }'' = None \<and> parse_stub ''1'' = Some ''1'' \<and>
   exited (fresh_bridge True) = None \<and>
   effects (rl_on_line parse_stub ''{ invalid json }'' (fresh_bridge True)) = [parse_failed] \<and>
   run parse_stub [Line ''{ invalid json }'', Line ''1''] (fresh_bridge True)
     = Some ((fresh_bridge True)\<lparr>
         messageQueue := [''1''],
         effects := [parse_failed, ConsoleError LDebug ''Received from stdin:'',
                     ConsoleError LWarn ''WebSocket not connected, queuing message'']\<rparr>)"
  using malformed_line_discarded[where parse = parse_stub and bad = "''{ invalid json }''"
      and good = "''1''" and m = "''1''" and s = "fresh_bridge True"]
  by (simp add: parse_stub_def fresh_bridge_def rl_on_line_def log_msg_def sendToWebSocket_def
        parse_failed_def)

end
